theory Spec2Isabelle
  imports Complex_Main
begin

section \<open>JavaScript numbers\<close>

text \<open>
  A JavaScript number is modelled as a real number or one of the three special IEEE values.
  Finite arithmetic is exact (rounding, overflow and the sign of zero are left out); what is
  kept is the behaviour the classifier depends on: a division by zero gives an infinity or
  \<open>NaN\<close>, \<open>NaN\<close> is contagious through arithmetic and through \<open>Math.min\<close>/\<open>Math.max\<close>, and
  every comparison with \<open>NaN\<close> is false. A zero divisor is taken to be \<open>+0\<close>, which is what a
  \<open>Math.sqrt\<close> result and an array length are.
\<close>

datatype jsnum = Fin real | PInf | NInf | NaN

fun jneg :: "jsnum \<Rightarrow> jsnum" where
  "jneg (Fin a) = Fin (- a)"
| "jneg PInf = NInf"
| "jneg NInf = PInf"
| "jneg NaN = NaN"

fun jadd :: "jsnum \<Rightarrow> jsnum \<Rightarrow> jsnum" where
  "jadd (Fin a) (Fin b) = Fin (a + b)"
| "jadd (Fin a) PInf = PInf"
| "jadd (Fin a) NInf = NInf"
| "jadd PInf (Fin b) = PInf"
| "jadd PInf PInf = PInf"
| "jadd NInf (Fin b) = NInf"
| "jadd NInf NInf = NInf"
| "jadd PInf NInf = NaN"
| "jadd NInf PInf = NaN"
| "jadd NaN b = NaN"
| "jadd a NaN = NaN"

definition jsub :: "jsnum \<Rightarrow> jsnum \<Rightarrow> jsnum" where
  "jsub a b = jadd a (jneg b)"

fun jdiv :: "jsnum \<Rightarrow> jsnum \<Rightarrow> jsnum" where
  "jdiv (Fin a) (Fin b) =
     (if b \<noteq> 0 then Fin (a / b)
      else if 0 < a then PInf else if a < 0 then NInf else NaN)"
| "jdiv (Fin a) PInf = Fin 0"
| "jdiv (Fin a) NInf = Fin 0"
| "jdiv PInf (Fin b) = (if 0 \<le> b then PInf else NInf)"
| "jdiv NInf (Fin b) = (if 0 \<le> b then NInf else PInf)"
| "jdiv PInf PInf = NaN"
| "jdiv PInf NInf = NaN"
| "jdiv NInf PInf = NaN"
| "jdiv NInf NInf = NaN"
| "jdiv NaN b = NaN"
| "jdiv a NaN = NaN"

text \<open>\<open>Math.min(a, b)\<close> and \<open>Math.max(a, b)\<close>: \<open>NaN\<close> as soon as an argument is \<open>NaN\<close>.\<close>

fun jmin :: "jsnum \<Rightarrow> jsnum \<Rightarrow> jsnum" where
  "jmin (Fin a) (Fin b) = Fin (min a b)"
| "jmin (Fin a) PInf = Fin a"
| "jmin (Fin a) NInf = NInf"
| "jmin PInf (Fin b) = Fin b"
| "jmin PInf PInf = PInf"
| "jmin PInf NInf = NInf"
| "jmin NInf (Fin b) = NInf"
| "jmin NInf PInf = NInf"
| "jmin NInf NInf = NInf"
| "jmin NaN b = NaN"
| "jmin a NaN = NaN"

fun jmax :: "jsnum \<Rightarrow> jsnum \<Rightarrow> jsnum" where
  "jmax (Fin a) (Fin b) = Fin (max a b)"
| "jmax (Fin a) PInf = PInf"
| "jmax (Fin a) NInf = Fin a"
| "jmax PInf (Fin b) = PInf"
| "jmax PInf PInf = PInf"
| "jmax PInf NInf = PInf"
| "jmax NInf (Fin b) = Fin b"
| "jmax NInf PInf = PInf"
| "jmax NInf NInf = NInf"
| "jmax NaN b = NaN"
| "jmax a NaN = NaN"

text \<open>The comparisons \<open>a > b\<close> and \<open>a < b\<close>.\<close>

fun jgt :: "jsnum \<Rightarrow> jsnum \<Rightarrow> bool" where
  "jgt (Fin a) (Fin b) = (b < a)"
| "jgt PInf (Fin b) = True"
| "jgt PInf NInf = True"
| "jgt (Fin a) NInf = True"
| "jgt a b = False"

definition jlt :: "jsnum \<Rightarrow> jsnum \<Rightarrow> bool" where
  "jlt a b = jgt b a"

section \<open>Landmarks and the distance helper\<close>

text \<open>
  A \<open>NormalizedLandmark\<close> has the fields \<open>x\<close>, \<open>y\<close> and \<open>z\<close>; they are named \<open>lm_x\<close>,
  \<open>lm_y\<close>, \<open>lm_z\<close> here. The source reads \<open>z\<close> as \<open>a.z || 0\<close>, so a missing \<open>z\<close>
  (\<open>None\<close>) counts as 0. Coordinates are finite.
\<close>

record landmark =
  lm_x :: real
  lm_y :: real
  lm_z :: "real option"

datatype js_error = TypeError

definition z_or_0 :: "landmark \<Rightarrow> real" where
  "z_or_0 a = (case lm_z a of None \<Rightarrow> 0 | Some v \<Rightarrow> v)"

definition distance :: "landmark \<Rightarrow> landmark \<Rightarrow> real" where
  "distance a b =
     (let dx = lm_x a - lm_x b;
          dy = lm_y a - lm_y b;
          dz = z_or_0 a - z_or_0 b
      in sqrt (dx * dx + dy * dy + dz * dz))"

section \<open>Tension of one hand\<close>

definition fingerTips :: "nat list" where
  "fingerTips = [4, 8, 12, 16, 20]"

definition fingerBases :: "nat list" where
  "fingerBases = [2, 5, 9, 13, 17]"

text \<open>One round of the loop of \<open>calculateTension\<close>: the new value of \<open>totalCurl\<close>.\<close>

definition curl_round :: "landmark list \<Rightarrow> landmark \<Rightarrow> real \<Rightarrow> jsnum \<Rightarrow> nat \<Rightarrow> jsnum" where
  "curl_round landmarks palmBase palmSize totalCurl i =
     (let tip = landmarks ! (fingerTips ! i);
          base = landmarks ! (fingerBases ! i);
          tipToPalm = distance tip palmBase;
          baseToPalm = distance base palmBase;
          extension = jdiv (Fin tipToPalm) (Fin palmSize);
          curl = jmax (Fin 0) (jmin (Fin 1) (jdiv (jsub (Fin 1.5) extension) (Fin 1.0)))
      in jadd totalCurl curl)"

text \<open>
  \<open>calculateTension\<close>. The largest index read is 20, and reading a field of a missing array
  element throws, so an array of fewer than 21 landmarks ends in a \<open>TypeError\<close>.
\<close>

definition calculateTension :: "landmark list \<Rightarrow> js_error + jsnum" where
  "calculateTension landmarks =
     (if length landmarks < 21 then Inl TypeError
      else
        let wrist = landmarks ! 0;
            palmBase = landmarks ! 9;
            palmSize = distance wrist palmBase;
            totalCurl = foldl (curl_round landmarks palmBase palmSize) (Fin 0)
                          [0..<length fingerTips];
            avgCurl = jdiv totalCurl (Fin 5)
        in Inr (jmax (Fin 0) (jmin (Fin 1) avgCurl)))"

subsection \<open>The tension as the specification words it\<close>

definition clamp01 :: "real \<Rightarrow> real" where
  "clamp01 v = max 0 (min 1 v)"

definition tip_base_pairs :: "(nat \<times> nat) list" where
  "tip_base_pairs = [(4, 2), (8, 5), (12, 9), (16, 13), (20, 17)]"

definition spec_curl :: "landmark list \<Rightarrow> nat \<Rightarrow> real" where
  "spec_curl lms tip =
     (let palmBase = lms ! 9;
          palmSize = distance (lms ! 0) palmBase;
          extension = distance (lms ! tip) palmBase / palmSize
      in clamp01 ((1.5 - extension) / 1.0))"

definition spec_tension :: "landmark list \<Rightarrow> real" where
  "spec_tension lms =
     clamp01 (sum_list (map (\<lambda>(tip, base). spec_curl lms tip) tip_base_pairs) / 5)"

subsection \<open>Hands on a line\<close>

text \<open>Test hands have all their landmarks on the vertical axis: \<open>pt v\<close> is the point at height \<open>v\<close>.\<close>

definition pt :: "real \<Rightarrow> landmark" where
  "pt v = \<lparr>lm_x = 0, lm_y = v, lm_z = None\<rparr>"

definition victoryHand :: "landmark list" where
  "victoryHand = map pt
     [0, 1, 1, 1, 1,  1, 1.3, 1.6, 2,  1, 1.3, 1.6, 2,  1, 1, 1, 1,  1, 1, 1, 1]"

definition pointHand :: "landmark list" where
  "pointHand = map pt
     [0, 1, 1, 1, 1,  1, 1.3, 1.6, 2,  1, 1, 1, 1,  1, 1, 1, 1,  1, 1, 1, 1]"

definition loveHand :: "landmark list" where
  "loveHand = map pt
     [0, 1, 1, 1, 2,  1, 1.3, 1.6, 2,  1, 1, 1, 1,  1, 1, 1, 1,  1, 1.3, 1.6, 2]"

definition thumbsUpHand :: "landmark list" where
  "thumbsUpHand = map pt
     [0, 1, 1, 1, 2,  1, 1, 1, 1,  1, 1, 1, 1,  1, 1, 1, 1,  1, 1, 1, 1]"

definition fistHand :: "landmark list" where
  "fistHand = map pt
     [0, 1, 1, 1, 1,  1, 1, 1, 1,  1, 1, 1, 1,  1, 1, 1, 1,  1, 1, 1, 1]"

definition openHand :: "landmark list" where
  "openHand = map pt
     [0, 1, 1.5, 2, 3,  1, 1.3, 2, 3,  1, 1.3, 2, 3,  1, 1.3, 2, 3,  1, 1.3, 2, 3]"

text \<open>A degenerate hand: every landmark at the same place, so the palm size is 0.\<close>

definition zeroHand :: "landmark list" where
  "zeroHand = map pt
     [0, 0, 0, 0, 0,  0, 0, 0, 0,  0, 0, 0, 0,  0, 0, 0, 0,  0, 0, 0, 0]"

text \<open>The wrist on the palm base (palm size 0) with the five finger tips away from it.\<close>

definition flatPalmHand :: "landmark list" where
  "flatPalmHand = map pt
     [0, 0, 0, 0, 1,  0, 0, 0, 1,  0, 0, 0, 1,  0, 0, 0, 1,  0, 0, 0, 1]"

text \<open>The victory hand with landmarks 1, 2, 3, 5, 13 and 17 moved.\<close>

definition victoryHandMoved :: "landmark list" where
  "victoryHandMoved = map pt
     [0, 7, 8, 9, 1,  5, 1.3, 1.6, 2,  1, 1.3, 1.6, 2,  4, 1, 1, 1,  3, 1, 1, 1]"

section \<open>Gesture of one hand\<close>

text \<open>
  \<open>detectGesture\<close>. Gestures are the strings the source returns. All landmarks are read
  before the tests, the last of them landmark 20.
\<close>

definition detectGesture :: "landmark list \<Rightarrow> js_error + string" where
  "detectGesture landmarks =
     (if length landmarks < 21 then Inl TypeError
      else
        let wrist = landmarks ! 0;
            palmBase = landmarks ! 9;
            palmSize = distance wrist palmBase;
            indexTip = landmarks ! 8;
            indexPIP = landmarks ! 6;
            indexExtended = (distance indexTip wrist > distance indexPIP wrist * 1.2);
            middleTip = landmarks ! 12;
            middlePIP = landmarks ! 10;
            middleExtended = (distance middleTip wrist > distance middlePIP wrist * 1.2);
            ringTip = landmarks ! 16;
            ringPIP = landmarks ! 14;
            ringExtended = (distance ringTip wrist > distance ringPIP wrist * 1.1);
            ringCurled = (distance ringTip palmBase < palmSize * 1.2);
            pinkyTip = landmarks ! 20;
            pinkyPIP = landmarks ! 18;
            pinkyExtended = (distance pinkyTip wrist > distance pinkyPIP wrist * 1.1);
            pinkyCurled = (distance pinkyTip palmBase < palmSize * 1.2);
            thumbTip = landmarks ! 4;
            indexMCP = landmarks ! 5;
            thumbExtended = (distance thumbTip indexMCP > palmSize * 0.6)
        in Inr
          (if indexExtended \<and> middleExtended \<and> ringCurled \<and> pinkyCurled then ''victory''
           else if thumbExtended \<and> indexExtended \<and> \<not> middleExtended \<and> \<not> ringExtended
                   \<and> pinkyExtended then ''love''
           else if thumbExtended \<and> \<not> indexExtended \<and> \<not> middleExtended \<and> \<not> ringExtended
                   \<and> \<not> pinkyExtended then ''thumbs_up''
           else if indexExtended \<and> \<not> middleExtended \<and> \<not> ringExtended \<and> \<not> pinkyExtended
             then ''point''
           else ''none''))"

subsection \<open>The gesture predicates as the specification words them\<close>

definition spec_palmSize :: "landmark list \<Rightarrow> real" where
  "spec_palmSize lms = distance (lms ! 0) (lms ! 9)"

definition spec_indexExtended :: "landmark list \<Rightarrow> bool" where
  "spec_indexExtended lms = (distance (lms ! 8) (lms ! 0) > distance (lms ! 6) (lms ! 0) * 1.2)"

definition spec_middleExtended :: "landmark list \<Rightarrow> bool" where
  "spec_middleExtended lms = (distance (lms ! 12) (lms ! 0) > distance (lms ! 10) (lms ! 0) * 1.2)"

definition spec_ringExtended :: "landmark list \<Rightarrow> bool" where
  "spec_ringExtended lms = (distance (lms ! 16) (lms ! 0) > distance (lms ! 14) (lms ! 0) * 1.1)"

definition spec_ringCurled :: "landmark list \<Rightarrow> bool" where
  "spec_ringCurled lms = (distance (lms ! 16) (lms ! 9) < spec_palmSize lms * 1.2)"

definition spec_pinkyExtended :: "landmark list \<Rightarrow> bool" where
  "spec_pinkyExtended lms = (distance (lms ! 20) (lms ! 0) > distance (lms ! 18) (lms ! 0) * 1.1)"

definition spec_pinkyCurled :: "landmark list \<Rightarrow> bool" where
  "spec_pinkyCurled lms = (distance (lms ! 20) (lms ! 9) < spec_palmSize lms * 1.2)"

definition spec_thumbExtended :: "landmark list \<Rightarrow> bool" where
  "spec_thumbExtended lms = (distance (lms ! 4) (lms ! 5) > spec_palmSize lms * 0.6)"

definition victory_pred :: "landmark list \<Rightarrow> bool" where
  "victory_pred lms =
     (spec_indexExtended lms \<and> spec_middleExtended lms \<and> spec_ringCurled lms
      \<and> spec_pinkyCurled lms)"

definition love_pred :: "landmark list \<Rightarrow> bool" where
  "love_pred lms =
     (spec_thumbExtended lms \<and> spec_indexExtended lms \<and> \<not> spec_middleExtended lms
      \<and> \<not> spec_ringExtended lms \<and> spec_pinkyExtended lms)"

definition thumbs_up_pred :: "landmark list \<Rightarrow> bool" where
  "thumbs_up_pred lms =
     (spec_thumbExtended lms \<and> \<not> spec_indexExtended lms \<and> \<not> spec_middleExtended lms
      \<and> \<not> spec_ringExtended lms \<and> \<not> spec_pinkyExtended lms)"

definition point_pred :: "landmark list \<Rightarrow> bool" where
  "point_pred lms =
     (spec_indexExtended lms \<and> \<not> spec_middleExtended lms \<and> \<not> spec_ringExtended lms
      \<and> \<not> spec_pinkyExtended lms)"

text \<open>The label of the first rule that holds, in the order of the list; \<open>none\<close> without one.\<close>

fun first_match :: "(bool \<times> string) list \<Rightarrow> string" where
  "first_match [] = ''none''"
| "first_match ((holds, label) # rules) = (if holds then label else first_match rules)"

definition spec_gesture :: "landmark list \<Rightarrow> string" where
  "spec_gesture lms =
     first_match [(victory_pred lms, ''victory''), (love_pred lms, ''love''),
                  (thumbs_up_pred lms, ''thumbs_up''), (point_pred lms, ''point'')]"

text \<open>The declaration of \<open>GestureType\<close> in \<open>types.ts\<close>, as the set of its string literals.\<close>

definition GestureType :: "string set" where
  "GestureType = {''none'', ''open'', ''fist'', ''victory''}"

section \<open>Aggregation over the hands of one detection tick\<close>

text \<open>
  The \<open>Results\<close> of the detector: the landmark arrays of the hands, and their handedness
  labels; either may be missing. The state passed to \<open>onUpdate\<close> is a \<open>HandState\<close>, whose
  fields carry the prefix \<open>hs_\<close> here.
\<close>

record Results =
  multiHandLandmarks :: "landmark list list option"
  multiHandedness :: "string list option"

record HandState =
  hs_tension :: jsnum
  hs_detected :: bool
  hs_leftHand :: bool
  hs_rightHand :: bool
  hs_gesture :: string

text \<open>The local variables of \<open>processResults\<close> that its loop updates.\<close>

record tally =
  totalTension :: jsnum
  leftHand :: bool
  rightHand :: bool
  detectedGesture :: string

text \<open>\<open>multiHandedness?.[i]?.label\<close>\<close>

definition handedness_label :: "string list option \<Rightarrow> nat \<Rightarrow> string option" where
  "handedness_label mh i =
     (case mh of None \<Rightarrow> None | Some hs \<Rightarrow> if i < length hs then Some (hs ! i) else None)"

definition hand_round :: "string list option \<Rightarrow> tally \<Rightarrow> nat \<Rightarrow> landmark list \<Rightarrow> js_error + tally" where
  "hand_round mh a i landmarks =
     (let handedness = handedness_label mh i;
          a1 = (if handedness = Some ''Left'' then a\<lparr>rightHand := True\<rparr>
                else a\<lparr>leftHand := True\<rparr>)
      in case calculateTension landmarks of
           Inl e \<Rightarrow> Inl e
         | Inr tension \<Rightarrow>
             (let a2 = a1\<lparr>totalTension := jadd (totalTension a1) tension\<rparr>
              in case detectGesture landmarks of
                   Inl e \<Rightarrow> Inl e
                 | Inr gesture \<Rightarrow>
                     Inr (if gesture \<noteq> ''none'' then a2\<lparr>detectedGesture := gesture\<rparr>
                          else a2)))"

fun hands_loop :: "string list option \<Rightarrow> nat \<Rightarrow> tally \<Rightarrow> landmark list list \<Rightarrow> js_error + tally" where
  "hands_loop mh i a [] = Inr a"
| "hands_loop mh i a (landmarks # rest) =
     (case hand_round mh a i landmarks of
        Inl e \<Rightarrow> Inl e
      | Inr a' \<Rightarrow> hands_loop mh (Suc i) a' rest)"

definition no_hands :: HandState where
  "no_hands = \<lparr>hs_tension = Fin 0, hs_detected = False, hs_leftHand = False,
                hs_rightHand = False, hs_gesture = ''none''\<rparr>"

definition processResults :: "Results \<Rightarrow> js_error + HandState" where
  "processResults results =
     (case multiHandLandmarks results of
        None \<Rightarrow> Inr no_hands
      | Some hands \<Rightarrow>
          if length hands = 0 then Inr no_hands
          else
            (case hands_loop (multiHandedness results) 0
                    \<lparr>totalTension = Fin 0, leftHand = False, rightHand = False,
                      detectedGesture = ''none''\<rparr> hands of
               Inl e \<Rightarrow> Inl e
             | Inr a \<Rightarrow>
                 (let avgTension = jdiv (totalTension a) (Fin (real (length hands)));
                      detected =
                        (if detectedGesture a = ''none''
                         then (if jgt avgTension (Fin 0.7) then ''fist''
                               else if jlt avgTension (Fin 0.3) then ''open''
                               else detectedGesture a)
                         else detectedGesture a)
                  in Inr \<lparr>hs_tension = avgTension, hs_detected = True,
                           hs_leftHand = leftHand a, hs_rightHand = rightHand a,
                           hs_gesture = detected\<rparr>)))"

subsection \<open>Notions used to state the aggregation\<close>

definition hand_gesture :: "landmark list \<Rightarrow> string" where
  "hand_gesture landmarks = (case detectGesture landmarks of Inr g \<Rightarrow> g | Inl e \<Rightarrow> ''none'')"

definition hand_tension :: "landmark list \<Rightarrow> jsnum" where
  "hand_tension landmarks = (case calculateTension landmarks of Inr t \<Rightarrow> t | Inl e \<Rightarrow> NaN)"

definition first_specific :: "string list \<Rightarrow> string option" where
  "first_specific gs = find (\<lambda>g. g \<noteq> ''none'') gs"

definition last_specific :: "string list \<Rightarrow> string option" where
  "last_specific gs = find (\<lambda>g. g \<noteq> ''none'') (rev gs)"

definition tension_gesture :: "jsnum \<Rightarrow> string" where
  "tension_gesture t =
     (if jgt t (Fin 0.7) then ''fist'' else if jlt t (Fin 0.3) then ''open'' else ''none'')"

definition mean_tension :: "landmark list list \<Rightarrow> jsnum" where
  "mean_tension hands =
     jdiv (foldl jadd (Fin 0) (map hand_tension hands)) (Fin (real (length hands)))"

section \<open>The morph engine: direction of a particle and the burst accumulators\<close>

text \<open>
  The direction of a particle from the centre, in the frame callback of \<open>ParticleSystem\<close>.
  \<open>rnd\<close> holds the values the three calls of \<open>Math.random()\<close> return; they are only made
  when the distance is at most 0.01.
\<close>

definition particle_direction :: "real \<times> real \<times> real \<Rightarrow> real \<times> real \<times> real \<Rightarrow> real \<times> real \<times> real" where
  "particle_direction target rnd =
     (case target of (tx, ty, tz) \<Rightarrow>
      case rnd of (r1, r2, r3) \<Rightarrow>
        let dist = sqrt (tx * tx + ty * ty + tz * tz);
            dirX = (if dist > 0.01 then tx / dist else r1 - 0.5);
            dirY = (if dist > 0.01 then ty / dist else r2 - 0.5);
            dirZ = (if dist > 0.01 then tz / dist else r3 - 0.5)
        in (dirX, dirY, dirZ))"

datatype ParticleShape = SPHERE | HEART | FLOWER | SATURN | BUDDHA | FIREWORKS | GALAXY | DNA | TEXT

text \<open>The scalar refs of \<open>ParticleSystem\<close> (\<open>prevTension\<close> is \<open>prevTensionRef\<close>).\<close>

record MorphRefs =
  tensionVelocity :: real
  prevTension :: real
  burstEnergy :: real
  shockwaveRadius :: real
  explosionPhase :: real
  cumulativeExplosion :: real

definition initial_refs :: "real \<Rightarrow> MorphRefs" where
  "initial_refs tension =
     \<lparr>tensionVelocity = 0, prevTension = tension, burstEnergy = 0, shockwaveRadius = 0,
      explosionPhase = 0, cumulativeExplosion = 0\<rparr>"

text \<open>
  What one call of the frame callback does to the scalar refs. In text mode it returns
  before touching them; otherwise it runs the burst detection, the shock wave and the decay.
\<close>

definition frame_refs :: "ParticleShape \<Rightarrow> real \<Rightarrow> real \<Rightarrow> MorphRefs \<Rightarrow> MorphRefs" where
  "frame_refs shape tension delta m =
     (if shape = TEXT then m
      else
        let tensionDelta = tension - prevTension m;
            m1 = m\<lparr>tensionVelocity := tensionVelocity m * 0.85 + tensionDelta * 15,
                   prevTension := tension\<rparr>;
            isOpening = (tensionDelta < - 0.015);
            openingSpeed = \<bar>min tensionDelta 0\<bar>;
            m2 = (if isOpening
                  then m1\<lparr>burstEnergy := min (burstEnergy m1 + openingSpeed * 25) 5,
                          explosionPhase := min (explosionPhase m1 + openingSpeed * 30) 1,
                          cumulativeExplosion :=
                            min (cumulativeExplosion m1 + openingSpeed * 10) 2\<rparr>
                  else m1);
            m3 = (if burstEnergy m2 > 0.5
                  then m2\<lparr>shockwaveRadius := shockwaveRadius m2 + delta * 15 * burstEnergy m2\<rparr>
                  else m2)
        in m3\<lparr>burstEnergy := burstEnergy m3 * 0.92,
               explosionPhase := explosionPhase m3 * 0.95,
               cumulativeExplosion := cumulativeExplosion m3 * 0.98,
               shockwaveRadius := shockwaveRadius m3 * 0.96\<rparr>)"

text \<open>A run of frames, each with its shape, tension and frame delta.\<close>

definition run_frames :: "(ParticleShape \<times> real \<times> real) list \<Rightarrow> MorphRefs \<Rightarrow> MorphRefs" where
  "run_frames frames m = foldl (\<lambda>m (shape, tension, delta). frame_refs shape tension delta m) m frames"

definition refs_in_range :: "MorphRefs \<Rightarrow> bool" where
  "refs_in_range m =
     (0 \<le> burstEnergy m \<and> burstEnergy m \<le> 5 \<and> 0 \<le> explosionPhase m \<and> explosionPhase m \<le> 1
      \<and> 0 \<le> cumulativeExplosion m \<and> cumulativeExplosion m \<le> 2 \<and> 0 \<le> shockwaveRadius m)"

section \<open>The shape library\<close>

text \<open>
  \<open>Math.random()\<close> is a source of numbers read in order: \<open>rnd k\<close> is the value of the
  \<open>k\<close>-th call, and every generator returns the index of the next unread value with its
  point. The values stored in the \<open>Float32Array\<close> are kept as reals.
\<close>

type_synonym point = "real \<times> real \<times> real"

type_synonym random_source = "nat \<Rightarrow> real"

definition sphere_point :: "random_source \<Rightarrow> nat \<Rightarrow> point \<times> nat" where
  "sphere_point rnd k =
     (let r = 4 * root 3 (rnd k);
          theta = rnd (k + 1) * 2 * pi;
          phi = arccos (2 * rnd (k + 2) - 1);
          x = r * sin phi * cos theta;
          y = r * sin phi * sin theta;
          z = r * cos phi
      in ((x, y, z), k + 3))"

definition heart_point :: "random_source \<Rightarrow> nat \<Rightarrow> point \<times> nat" where
  "heart_point rnd k =
     (let t = rnd k * pi * 2;
          r = rnd (k + 1);
          hx = 16 * sin t ^ 3;
          hy = 13 * cos t - 5 * cos (2 * t) - 2 * cos (3 * t) - cos (4 * t);
          hx' = hx * 0.25;
          hy' = hy * 0.25;
          hz = (rnd (k + 2) - 0.5) * 2;
          x = hx' * r;
          y = hy' * r;
          z = hz * r
      in ((x, y, z), k + 3))"

definition flower_point :: "random_source \<Rightarrow> nat \<Rightarrow> point \<times> nat" where
  "flower_point rnd k =
     (let petals = 6;
          theta = rnd k * 2 * pi;
          rMax = cos (petals * theta) + 2;
          r = rnd (k + 1) * rMax * 1.5;
          x = r * cos theta;
          y = r * sin theta;
          z = (rnd (k + 2) - 0.5) * 1.5
      in if rnd (k + 3) < 0.2
         then
           let cr = rnd (k + 4) * 1;
               ctheta = rnd (k + 5) * 2 * pi;
               cphi = arccos (2 * rnd (k + 6) - 1)
           in ((cr * sin cphi * cos ctheta, cr * sin cphi * sin ctheta, cr * cos cphi), k + 7)
         else ((x, y, z), k + 4))"

definition saturn_point :: "random_source \<Rightarrow> nat \<Rightarrow> point \<times> nat" where
  "saturn_point rnd k =
     (if rnd k < 0.6
      then
        let r = 2 * root 3 (rnd (k + 1));
            theta = rnd (k + 2) * 2 * pi;
            phi = arccos (2 * rnd (k + 3) - 1)
        in ((r * sin phi * cos theta, r * sin phi * sin theta * 0.9, r * cos phi), k + 4)
      else
        let ringRadius = 3 + rnd (k + 1) * 1.5;
            ringTheta = rnd (k + 2) * 2 * pi;
            ringHeight = (rnd (k + 3) - 0.5) * 0.15
        in ((ringRadius * cos ringTheta, ringHeight, ringRadius * sin ringTheta), k + 4))"

definition buddha_point :: "random_source \<Rightarrow> nat \<Rightarrow> point \<times> nat" where
  "buddha_point rnd k =
     (let section = rnd k
      in if section < 0.25
         then
           let r = 1 * root 3 (rnd (k + 1));
               theta = rnd (k + 2) * 2 * pi;
               phi = arccos (2 * rnd (k + 3) - 1)
           in ((r * sin phi * cos theta * 0.8, r * sin phi * sin theta * 1 + 3,
                r * cos phi * 0.8), k + 4)
         else if section < 0.5
         then
           let r = 1.5 * root 3 (rnd (k + 1));
               theta = rnd (k + 2) * 2 * pi;
               phi = arccos (2 * rnd (k + 3) - 1)
           in ((r * sin phi * cos theta, r * sin phi * sin theta * 1.5 + 0.5,
                r * cos phi * 0.8), k + 4)
         else if section < 0.7
         then
           let r = 2 * root 3 (rnd (k + 1));
               theta = rnd (k + 2) * 2 * pi
           in ((r * cos theta, - 1.5 + rnd (k + 3) * 0.5, r * sin theta * 0.4), k + 4)
         else
           let ringRadius = 1.5 + rnd (k + 1) * 0.3;
               ringTheta = rnd (k + 2) * 2 * pi
           in ((ringRadius * cos ringTheta, 3 + ringRadius * sin ringTheta * 0.3,
                (rnd (k + 3) - 0.5) * 0.2), k + 4))"

definition burstCenters :: "point list" where
  "burstCenters = [(0, 2, 0), (- 2, 1, 1), (2, 0.5, - 1), (- 1, - 0.5, - 1.5), (1.5, - 1, 1)]"

text \<open>
  The fireworks generator reads \<open>burstCenters[burstPoint]\<close>; outside the array that is
  \<open>undefined\<close>, and reading its \<open>x\<close> throws.
\<close>

definition fireworks_point :: "random_source \<Rightarrow> nat \<Rightarrow> js_error + point \<times> nat" where
  "fireworks_point rnd k =
     (let burstPoint = \<lfloor>rnd k * 5\<rfloor>;
          r = rnd (k + 1) * 2;
          theta = rnd (k + 2) * 2 * pi;
          phi = arccos (2 * rnd (k + 3) - 1)
      in if 0 \<le> burstPoint \<and> burstPoint < int (length burstCenters)
         then
           (case burstCenters ! nat burstPoint of (cx, cy, cz) \<Rightarrow>
              let x = cx + r * sin phi * cos theta;
                  y = cy + r * sin phi * sin theta;
                  z = cz + r * cos phi
              in if rnd (k + 4) < 0.3
                 then Inr ((x, y - rnd (k + 5) * 1.5, z), k + 6)
                 else Inr ((x, y, z), k + 5))
         else Inl TypeError)"

definition galaxy_point :: "random_source \<Rightarrow> nat \<Rightarrow> nat \<Rightarrow> point \<times> nat" where
  "galaxy_point rnd i k =
     (let branches = 4;
          radius = rnd k * 5;
          spinAngle = radius * 2;
          branchAngle = (real (i mod branches) / real branches) * pi * 2;
          randomX = rnd (k + 1) ^ 3 * (if rnd (k + 2) < 0.5 then 1 else - 1) * 0.5;
          randomY = rnd (k + 3) ^ 3 * (if rnd (k + 4) < 0.5 then 1 else - 1) * 0.3;
          randomZ = rnd (k + 5) ^ 3 * (if rnd (k + 6) < 0.5 then 1 else - 1) * 0.5;
          x = cos (branchAngle + spinAngle) * radius + randomX;
          y = randomY;
          z = sin (branchAngle + spinAngle) * radius + randomZ
      in if rnd (k + 7) < 0.15
         then
           let bulgeR = rnd (k + 8) * 1;
               bulgeTheta = rnd (k + 9) * 2 * pi;
               bulgePhi = arccos (2 * rnd (k + 10) - 1)
           in ((bulgeR * sin bulgePhi * cos bulgeTheta,
                bulgeR * sin bulgePhi * sin bulgeTheta * 0.3,
                bulgeR * cos bulgePhi), k + 11)
         else ((x, y, z), k + 8))"

definition dna_point :: "nat \<Rightarrow> random_source \<Rightarrow> nat \<Rightarrow> nat \<Rightarrow> point \<times> nat" where
  "dna_point count rnd i k =
     (let t = (real i / real count) * pi * 8;
          helixRadius = 1.5;
          x = (if i mod 2 = 0 then helixRadius * cos t else helixRadius * cos (t + pi));
          z = (if i mod 2 = 0 then helixRadius * sin t else helixRadius * sin (t + pi));
          y = (real i / real count - 0.5) * 10;
          bar = (rnd k < 0.1);
          barT = rnd (k + 1) * pi;
          x' = (if bar then helixRadius * cos t * (1 - barT / pi)
                            + helixRadius * cos (t + pi) * (barT / pi) else x);
          z' = (if bar then helixRadius * sin t * (1 - barT / pi)
                            + helixRadius * sin (t + pi) * (barT / pi) else z);
          k' = (if bar then k + 2 else k + 1)
      in ((x' + (rnd k' - 0.5) * 0.2, y + (rnd (k' + 1) - 0.5) * 0.2,
           z' + (rnd (k' + 2) - 0.5) * 0.2), k' + 3))"

text \<open>The body of the loop of \<open>GenerateParticles\<close>: the \<open>switch\<close> on the shape.\<close>

definition shape_point :: "ParticleShape \<Rightarrow> nat \<Rightarrow> random_source \<Rightarrow> nat \<Rightarrow> nat \<Rightarrow> js_error + point \<times> nat" where
  "shape_point shape count rnd i k =
     (case shape of
        SPHERE \<Rightarrow> Inr (sphere_point rnd k)
      | HEART \<Rightarrow> Inr (heart_point rnd k)
      | FLOWER \<Rightarrow> Inr (flower_point rnd k)
      | SATURN \<Rightarrow> Inr (saturn_point rnd k)
      | BUDDHA \<Rightarrow> Inr (buddha_point rnd k)
      | FIREWORKS \<Rightarrow> fireworks_point rnd k
      | GALAXY \<Rightarrow> Inr (galaxy_point rnd i k)
      | DNA \<Rightarrow> Inr (dna_point count rnd i k)
      | TEXT \<Rightarrow> Inr ((0, 0, 0), k))"

text \<open>
  The loop \<open>for (let i = 0; i < count; i++)\<close> over the position array: each round stores the
  three coordinates of its point at \<open>i * 3\<close>, \<open>i * 3 + 1\<close> and \<open>i * 3 + 2\<close>.
\<close>

fun fill :: "(nat \<Rightarrow> nat \<Rightarrow> js_error + point \<times> nat) \<Rightarrow> nat list \<Rightarrow> nat \<Rightarrow> real list \<Rightarrow> js_error + real list \<times> nat" where
  "fill gen [] k positions = Inr (positions, k)"
| "fill gen (i # rest) k positions =
     (case gen i k of
        Inl e \<Rightarrow> Inl e
      | Inr ((x, y, z), k') \<Rightarrow>
          fill gen rest k' (positions[i * 3 := x, i * 3 + 1 := y, i * 3 + 2 := z]))"

text \<open>The values \<open>0, step, 2 * step, ...\<close> below \<open>n\<close> of a loop \<open>for (v = 0; v < n; v += step)\<close>.\<close>

definition stepped :: "nat \<Rightarrow> nat \<Rightarrow> nat list" where
  "stepped n step = filter (\<lambda>v. v mod step = 0) [0..<n]"

text \<open>
  The scan of the canvas for text pixels. \<open>pixels\<close> is the byte array of the image data that
  the canvas returns after drawing the text (the canvas is not part of the model).
\<close>

definition scan_textPixels :: "(nat \<Rightarrow> nat) \<Rightarrow> (nat \<times> nat) list" where
  "scan_textPixels pixels =
     (let width = 600; height = 150; step = 2
      in concat (map (\<lambda>y. concat (map (\<lambda>x. if pixels ((y * width + x) * 4) > 100
                                           then [(x, y)] else [])
                                   (stepped width step)))
           (stepped height step)))"

definition text_point :: "(nat \<times> nat) list \<Rightarrow> random_source \<Rightarrow> nat \<Rightarrow> nat \<Rightarrow> js_error + point \<times> nat" where
  "text_point textPixels rnd i k =
     (let scale = 0.035; offsetX = 600 / 2; offsetY = 150 / 2
      in if length textPixels > 0
         then
           (case textPixels ! (i mod length textPixels) of (px, py) \<Rightarrow>
              let z = (rnd k - 0.5) * 0.2;
                  jitterX = (rnd (k + 1) - 0.5) * 0.05;
                  jitterY = (rnd (k + 2) - 0.5) * 0.05
              in Inr (((real px - offsetX) * scale + jitterX,
                       - (real py - offsetY) * scale + jitterY, z), k + 3))
         else
           let col = i mod 20;
               row = (i div 20) mod 10
           in Inr (((real col - 10) * 0.3, (real row - 5) * 0.3, 0), k))"

text \<open>A text is the list of its UTF-16 code units; \<open>canvas\<close> gives the image data of a text.\<close>

definition generateTextPoints :: "(nat list \<Rightarrow> nat \<Rightarrow> nat) \<Rightarrow> random_source \<Rightarrow> nat list \<Rightarrow> nat \<Rightarrow> js_error + real list" where
  "generateTextPoints canvas rnd text count =
     (let positions = replicate (count * 3) 0;
          textPixels = scan_textPixels (canvas text)
      in map_sum id fst (fill (text_point textPixels rnd) [0..<count] 0 positions))"

definition defaultText :: "nat list" where
  "defaultText = [0x5927, 0x96F7, 0x65E9, 0x4E0A, 0x597D]"

text \<open>\<open>customText || defaultText\<close>: a missing or empty text gives the default.\<close>

definition text_or_default :: "nat list option \<Rightarrow> nat list" where
  "text_or_default customText =
     (case customText of None \<Rightarrow> defaultText | Some t \<Rightarrow> if t = [] then defaultText else t)"

definition GenerateParticles :: "(nat list \<Rightarrow> nat \<Rightarrow> nat) \<Rightarrow> random_source \<Rightarrow> nat \<Rightarrow> ParticleShape \<Rightarrow> nat list option \<Rightarrow> js_error + real list" where
  "GenerateParticles canvas rnd count shape customText =
     (if shape = TEXT
      then generateTextPoints canvas rnd (text_or_default customText) count
      else
        let positions = replicate (count * 3) 0
        in map_sum id fst (fill (shape_point shape count rnd) [0..<count] 0 positions))"

subsection \<open>The cloud as a list of points\<close>

text \<open>The points the generator \<open>gen\<close> makes for the indices of a list, in order.\<close>

fun gen_points :: "(nat \<Rightarrow> nat \<Rightarrow> js_error + point \<times> nat) \<Rightarrow> nat list \<Rightarrow> nat \<Rightarrow> point list" where
  "gen_points gen [] k = []"
| "gen_points gen (i # rest) k =
     (case gen i k of Inl e \<Rightarrow> [] | Inr (p, k') \<Rightarrow> p # gen_points gen rest k')"

definition flatten :: "point list \<Rightarrow> real list" where
  "flatten ps = concat (map (\<lambda>(x, y, z). [x, y, z]) ps)"

definition grid_point :: "nat \<Rightarrow> point" where
  "grid_point i = ((real (i mod 20) - 10) * 0.3, (real ((i div 20) mod 10) - 5) * 0.3, 0)"

text \<open>The target cloud as a list of points: what the generator of the shape makes for 0, ..., count - 1.\<close>

definition cloud :: "(nat list \<Rightarrow> nat \<Rightarrow> nat) \<Rightarrow> random_source \<Rightarrow> nat \<Rightarrow> ParticleShape \<Rightarrow> nat list option \<Rightarrow> point list" where
  "cloud canvas rnd count shape customText =
     (if shape = TEXT
      then gen_points (text_point (scan_textPixels (canvas (text_or_default customText))) rnd)
             [0..<count] 0
      else gen_points (shape_point shape count rnd) [0..<count] 0)"

section \<open>The gesture debouncer of App\<close>

text \<open>
  The state of \<open>App\<close> that the gesture effect reads and writes, with the timers of the
  JavaScript runtime. \<open>handData_gesture\<close> is \<open>handData.gesture\<close>, which every call of
  \<open>setHandData\<close> sets to a string. A live timer is an identifier, the milliseconds left and its
  callback; identifiers are positive and never reused. Time advances in steps of a
  millisecond. State updates made in one callback are rendered together.
\<close>

text \<open>
  The two callbacks passed to \<open>setTimeout\<close>, with the values their closures captured: the
  confirmation captures \<open>gesture\<close>, \<open>currentGesture\<close>, \<open>activeShape\<close> and \<open>particleColor\<close>, the
  release \<open>previousShape\<close> and \<open>previousColor\<close>.
\<close>

datatype callback =
    Confirm string string ParticleShape string
  | Release ParticleShape string

record App =
  handData_gesture :: string
  currentGesture :: string
  activeShape :: ParticleShape
  particleColor :: string
  previousShape :: ParticleShape
  previousColor :: string
  gestureTimerRef :: "nat option"
  timers :: "(nat \<times> nat \<times> callback) list"
  nextTimer :: nat

definition app_init :: App where
  "app_init =
     \<lparr>handData_gesture = ''none'', currentGesture = ''none'', activeShape = SPHERE,
      particleColor = ''#4ade80'', previousShape = SPHERE, previousColor = ''#4ade80'',
      gestureTimerRef = None, timers = [], nextTimer = 1\<rparr>"

definition specialGestures :: "string list" where
  "specialGestures = [''victory'', ''love'', ''thumbs_up'', ''point'']"

text \<open>\<open>gestureTimerRef.current = setTimeout(cb, ms)\<close>\<close>

definition setTimeout_ref :: "callback \<Rightarrow> nat \<Rightarrow> App \<Rightarrow> App" where
  "setTimeout_ref cb ms s =
     s\<lparr>timers := timers s @ [(nextTimer s, ms, cb)],
       gestureTimerRef := Some (nextTimer s),
       nextTimer := Suc (nextTimer s)\<rparr>"

definition clearTimeout :: "nat \<Rightarrow> App \<Rightarrow> App" where
  "clearTimeout t s = s\<lparr>timers := filter (\<lambda>(t', ms, cb). t' \<noteq> t) (timers s)\<rparr>"

text \<open>\<open>if (gestureTimerRef.current) clearTimeout(gestureTimerRef.current)\<close>\<close>

definition clear_pending :: "App \<Rightarrow> App" where
  "clear_pending s = (case gestureTimerRef s of None \<Rightarrow> s | Some t \<Rightarrow> clearTimeout t s)"

text \<open>The body of the gesture effect.\<close>

definition gesture_effect :: "App \<Rightarrow> App" where
  "gesture_effect s =
     (let gesture = handData_gesture s
      in if gesture \<noteq> currentGesture s
         then
           let s1 = clear_pending s
           in if gesture \<in> set specialGestures
              then setTimeout_ref
                     (Confirm gesture (currentGesture s) (activeShape s) (particleColor s)) 300 s1
              else if currentGesture s \<in> set specialGestures
              then setTimeout_ref (Release (previousShape s) (previousColor s)) 1000 s1
              else s1\<lparr>currentGesture := gesture\<rparr>
         else s)"

text \<open>What a timer callback does when it runs.\<close>

fun run_callback :: "callback \<Rightarrow> App \<Rightarrow> App" where
  "run_callback (Confirm gesture current shape color) s =
     (let s1 = (if current \<notin> set specialGestures
                then s\<lparr>previousShape := shape, previousColor := color\<rparr> else s);
          s2 = s1\<lparr>currentGesture := gesture\<rparr>
      in if gesture = ''victory'' then s2\<lparr>activeShape := TEXT, particleColor := ''#ffd700''\<rparr>
         else if gesture = ''love'' then s2\<lparr>activeShape := HEART, particleColor := ''#ec4899''\<rparr>
         else if gesture = ''thumbs_up''
           then s2\<lparr>activeShape := FIREWORKS, particleColor := ''#ef4444''\<rparr>
         else if gesture = ''point'' then s2\<lparr>activeShape := SATURN, particleColor := ''#06b6d4''\<rparr>
         else s2)"
| "run_callback (Release shape color) s =
     s\<lparr>currentGesture := ''none'', activeShape := shape, particleColor := color\<rparr>"

text \<open>The dependency list of the effect.\<close>

definition deps :: "App \<Rightarrow> string \<times> string \<times> ParticleShape \<times> string \<times> ParticleShape \<times> string" where
  "deps s =
     (handData_gesture s, currentGesture s, activeShape s, particleColor s, previousShape s,
      previousColor s)"

text \<open>A render after which a dependency has changed: the cleanup of the last run, then the effect.\<close>

definition rerun_effect :: "App \<Rightarrow> App" where
  "rerun_effect s = gesture_effect (clear_pending s)"

text \<open>
  The renders that follow a state update from \<open>old\<close> to \<open>new\<close>. The effect runs again when a
  dependency has changed, and once more when that run has changed the state itself.
\<close>

definition commit :: "App \<Rightarrow> App \<Rightarrow> App" where
  "commit old new =
     (if deps new = deps old then new
      else
        let s1 = rerun_effect new
        in if deps s1 = deps new then s1 else rerun_effect s1)"

text \<open>A millisecond passes: the timers that are due leave the table and their callbacks run.\<close>

definition advance_timers :: "App \<Rightarrow> App" where
  "advance_timers s =
     (let due = filter (\<lambda>(t, ms, cb). ms \<le> 1) (timers s);
          later = map (\<lambda>(t, ms, cb). (t, ms - 1, cb)) (filter (\<lambda>(t, ms, cb). 1 < ms) (timers s))
      in foldl (\<lambda>s (t, ms, cb). run_callback cb s) (s\<lparr>timers := later\<rparr>) due)"

text \<open>
  What happens to the application: the detector reports a gesture, a millisecond passes, the
  user picks a shape or a colour, or tracking is stopped.
\<close>

datatype event = Raw string | Tick | PickShape ParticleShape | PickColor string | StopTracking

fun step :: "event \<Rightarrow> App \<Rightarrow> App" where
  "step (Raw g) s = commit s (s\<lparr>handData_gesture := g\<rparr>)"
| "step Tick s = commit s (advance_timers s)"
| "step (PickShape shape) s = commit s (s\<lparr>activeShape := shape\<rparr>)"
| "step (PickColor color) s = commit s (s\<lparr>particleColor := color\<rparr>)"
| "step StopTracking s = commit s (s\<lparr>handData_gesture := ''none'', currentGesture := ''none''\<rparr>)"

definition run :: "event list \<Rightarrow> App \<Rightarrow> App" where
  "run events s = foldl (\<lambda>s e. step e s) s events"

definition ticks :: "nat \<Rightarrow> App \<Rightarrow> App" where
  "ticks n s = run (replicate n Tick) s"

text \<open>The shape and colour of a special gesture.\<close>

definition gesture_look :: "string \<Rightarrow> ParticleShape \<times> string" where
  "gesture_look g =
     (if g = ''victory'' then (TEXT, ''#ffd700'')
      else if g = ''love'' then (HEART, ''#ec4899'')
      else if g = ''thumbs_up'' then (FIREWORKS, ''#ef4444'')
      else (SATURN, ''#06b6d4''))"

text \<open>
  The delay and the callback of the timer that the effect starts in a state, if it starts
  one; a state is settled when its timers are what the effect leaves behind.
\<close>

definition pending :: "App \<Rightarrow> (nat \<times> callback) option" where
  "pending s =
     (if handData_gesture s = currentGesture s then None
      else if handData_gesture s \<in> set specialGestures
      then Some (300, Confirm (handData_gesture s) (currentGesture s) (activeShape s)
                        (particleColor s))
      else if currentGesture s \<in> set specialGestures
      then Some (1000, Release (previousShape s) (previousColor s))
      else None)"

fun only_timer :: "App \<Rightarrow> nat \<Rightarrow> callback \<Rightarrow> (nat \<times> nat \<times> callback) list \<Rightarrow> bool" where
  "only_timer s limit cb [(t, ms, cb')] =
     (cb' = cb \<and> gestureTimerRef s = Some t \<and> t < nextTimer s \<and> 0 < ms \<and> ms \<le> limit)"
| "only_timer s limit cb ts = False"

definition settled :: "App \<Rightarrow> bool" where
  "settled s =
     (case pending s of
        None \<Rightarrow> handData_gesture s = currentGesture s \<and> timers s = []
      | Some (limit, cb) \<Rightarrow> only_timer s limit cb (timers s))"

text \<open>
  An excursion: the committed gesture is special in a state and stays special through the
  events of a list.
\<close>

fun excursion :: "event list \<Rightarrow> App \<Rightarrow> bool" where
  "excursion [] s = (currentGesture s \<in> set specialGestures)"
| "excursion (e # events) s =
     (currentGesture s \<in> set specialGestures \<and> excursion events (step e s))"

text \<open>Every live timer is the one \<open>gestureTimerRef\<close> holds.\<close>

definition owned :: "App \<Rightarrow> bool" where
  "owned s = (\<forall>(t, ms, cb) \<in> set (timers s). gestureTimerRef s = Some t)"

section \<open>Properties of the tension\<close>

lemma distance_pt: "distance (pt a) (pt b) = \<bar>a - b\<bar>"
  by (simp add: distance_def pt_def z_or_0_def)

lemma distance_nonneg: "0 \<le> distance a b"
  by (simp add: distance_def Let_def)

lemma clamp01_bounds: "0 \<le> clamp01 v \<and> clamp01 v \<le> 1"
  by (simp add: clamp01_def)

lemma five_rounds: "[0..<length fingerTips] = [0, 1, 2, 3, 4]"
  by (simp add: fingerTips_def upt_rec)

lemma curl_round_Fin:
  assumes "palmSize \<noteq> 0"
  shows "curl_round lms (lms ! 9) palmSize (Fin t) i =
           Fin (t + clamp01 ((1.5 - distance (lms ! (fingerTips ! i)) (lms ! 9) / palmSize) / 1.0))"
  using assms by (simp add: curl_round_def Let_def jsub_def clamp01_def)

lemma total_curl_Fin:
  assumes "distance (lms ! 0) (lms ! 9) \<noteq> 0"
  shows "foldl (curl_round lms (lms ! 9) (distance (lms ! 0) (lms ! 9))) (Fin 0)
           [0..<length fingerTips]
         = Fin (sum_list (map (\<lambda>(tip, base). spec_curl lms tip) tip_base_pairs))"
  unfolding five_rounds
  by (simp add: curl_round_Fin [OF assms] fingerTips_def tip_base_pairs_def spec_curl_def
      Let_def add.assoc)

lemma calculateTension_value:
  assumes "21 \<le> length lms" and "distance (lms ! 0) (lms ! 9) \<noteq> 0"
  shows "calculateTension lms = Inr (Fin (spec_tension lms))"
  using assms(1)
  by (simp add: calculateTension_def Let_def total_curl_Fin [OF assms(2)]
      spec_tension_def clamp01_def)

lemma spec_tension_bounds: "0 \<le> spec_tension lms \<and> spec_tension lms \<le> 1"
  unfolding spec_tension_def by (rule clamp01_bounds)

text \<open>
  C1. For a hand of 21 landmarks whose palm size (the distance from the wrist, landmark 0, to
  landmark 9) is not zero, \<open>calculateTension\<close> returns the mean over the five tip/base pairs
  of \<open>curl = clamp((1.5 - extension) / 1.0, 0, 1)\<close> with
  \<open>extension = distance(tip, palmBase) / palmSize\<close>, the mean clamped to [0, 1]; the value
  lies in [0, 1].
\<close>

theorem calculateTension_is_clamped_mean_curl:
  assumes "length lms = 21" and "distance (lms ! 0) (lms ! 9) \<noteq> 0"
  shows "calculateTension lms = Inr (Fin (spec_tension lms))
         \<and> 0 \<le> spec_tension lms \<and> spec_tension lms \<le> 1"
proof -
  from assms(1) have "21 \<le> length lms" by simp
  then have "calculateTension lms = Inr (Fin (spec_tension lms))"
    using assms(2) by (rule calculateTension_value)
  with spec_tension_bounds [of lms] show ?thesis by simp
qed

lemma length_hands:
  "length victoryHand = 21" "length pointHand = 21" "length loveHand = 21"
  "length thumbsUpHand = 21" "length fistHand = 21" "length openHand = 21"
  "length zeroHand = 21" "length flatPalmHand = 21" "length victoryHandMoved = 21"
  by (simp_all add: victoryHand_def pointHand_def loveHand_def thumbsUpHand_def fistHand_def
      openHand_def zeroHand_def flatPalmHand_def victoryHandMoved_def)

lemma palm_victoryHand: "distance (victoryHand ! 0) (victoryHand ! 9) = 1"
  by (simp add: victoryHand_def distance_pt)

theorem calculateTension_is_clamped_mean_curl_witness:
  "length victoryHand = 21 \<and> distance (victoryHand ! 0) (victoryHand ! 9) \<noteq> 0
   \<and> calculateTension victoryHand = Inr (Fin (spec_tension victoryHand))
   \<and> 0 \<le> spec_tension victoryHand \<and> spec_tension victoryHand \<le> 1"
proof -
  have len: "length victoryHand = 21"
    by (rule length_hands)
  have palm: "distance (victoryHand ! 0) (victoryHand ! 9) \<noteq> 0"
    by (simp add: palm_victoryHand)
  show ?thesis
    using calculateTension_is_clamped_mean_curl [OF len palm] len palm by simp
qed

subsection \<open>Landmarks the tension does not depend on\<close>

lemma curl_round_cong:
  assumes "a ! (fingerTips ! i) = b ! (fingerTips ! i)"
  shows "curl_round a pb ps t i = curl_round b pb ps t i"
  using assms by (simp add: curl_round_def Let_def)

lemma total_curl_cong:
  assumes "a ! 4 = b ! 4" "a ! 8 = b ! 8" "a ! 12 = b ! 12" "a ! 16 = b ! 16" "a ! 20 = b ! 20"
  shows "foldl (curl_round a pb ps) t [0..<length fingerTips]
         = foldl (curl_round b pb ps) t [0..<length fingerTips]"
proof -
  have "curl_round a pb ps u i = curl_round b pb ps u i" if "i \<in> {0, 1, 2, 3, 4}" for u i
    using that assms by (intro curl_round_cong) (auto simp: fingerTips_def)
  then show ?thesis
    unfolding five_rounds by simp
qed

text \<open>
  C10. Two hands of 21 landmarks (or more) that agree on the landmarks 0, 4, 8, 9, 12, 16 and
  20 have the same tension: the finger bases 2, 5, 13 and 17, which the loop reads into
  \<open>baseToPalm\<close>, and every other landmark have no influence on the result.
\<close>

theorem calculateTension_noninterference:
  assumes "21 \<le> length a" and "21 \<le> length b"
    and "\<forall>i \<in> {0, 4, 8, 9, 12, 16, 20}. a ! i = b ! i"
  shows "calculateTension a = calculateTension b"
proof -
  from assms(3) have eq: "a ! 0 = b ! 0" "a ! 9 = b ! 9"
    and tips: "a ! 4 = b ! 4" "a ! 8 = b ! 8" "a ! 12 = b ! 12" "a ! 16 = b ! 16"
      "a ! 20 = b ! 20"
    by simp_all
  show ?thesis
    using assms(1,2)
    by (simp add: calculateTension_def Let_def eq total_curl_cong [OF tips])
qed

theorem calculateTension_noninterference_witness:
  "21 \<le> length victoryHand \<and> 21 \<le> length victoryHandMoved
   \<and> victoryHand ! 2 \<noteq> victoryHandMoved ! 2 \<and> victoryHand ! 5 \<noteq> victoryHandMoved ! 5
   \<and> victoryHand ! 13 \<noteq> victoryHandMoved ! 13 \<and> victoryHand ! 17 \<noteq> victoryHandMoved ! 17
   \<and> calculateTension victoryHand = calculateTension victoryHandMoved"
proof -
  have agree: "\<forall>i \<in> {0, 4, 8, 9, 12, 16, 20}. victoryHand ! i = victoryHandMoved ! i"
    by (simp add: victoryHand_def victoryHandMoved_def)
  have differ: "victoryHand ! 2 \<noteq> victoryHandMoved ! 2" "victoryHand ! 5 \<noteq> victoryHandMoved ! 5"
    "victoryHand ! 13 \<noteq> victoryHandMoved ! 13" "victoryHand ! 17 \<noteq> victoryHandMoved ! 17"
    by (simp_all add: victoryHand_def victoryHandMoved_def pt_def)
  have "calculateTension victoryHand = calculateTension victoryHandMoved"
    using calculateTension_noninterference [OF _ _ agree] by (simp add: length_hands)
  with differ show ?thesis by (simp add: length_hands)
qed

section \<open>Properties of the gesture classifier\<close>

lemmas pred_defs = victory_pred_def love_pred_def thumbs_up_pred_def point_pred_def
  spec_indexExtended_def spec_middleExtended_def spec_ringExtended_def spec_ringCurled_def
  spec_pinkyExtended_def spec_pinkyCurled_def spec_thumbExtended_def spec_palmSize_def

lemma detectGesture_spec:
  assumes "21 \<le> length lms"
  shows "detectGesture lms = Inr (spec_gesture lms)"
  using assms by (simp add: detectGesture_def spec_gesture_def pred_defs Let_def)

lemma victory_excludes_point: "\<not> (victory_pred lms \<and> point_pred lms)"
  by (simp add: victory_pred_def point_pred_def)

lemma spec_gesture_hands:
  "spec_gesture victoryHand = ''victory''" "spec_gesture loveHand = ''love''"
  "spec_gesture thumbsUpHand = ''thumbs_up''" "spec_gesture pointHand = ''point''"
  "spec_gesture fistHand = ''none''" "spec_gesture openHand = ''none''"
  by (simp_all add: spec_gesture_def pred_defs victoryHand_def loveHand_def thumbsUpHand_def
      pointHand_def fistHand_def openHand_def distance_pt)

lemma detectGesture_hands:
  "detectGesture victoryHand = Inr ''victory''" "detectGesture loveHand = Inr ''love''"
  "detectGesture thumbsUpHand = Inr ''thumbs_up''" "detectGesture pointHand = Inr ''point''"
  "detectGesture fistHand = Inr ''none''" "detectGesture openHand = Inr ''none''"
  by (simp_all add: detectGesture_spec length_hands spec_gesture_hands)

text \<open>
  C2. On a hand of 21 landmarks \<open>detectGesture\<close> tests the predicates victory, love,
  thumbs_up, point in this order and returns the label of the first one that holds, \<open>none\<close>
  when none does. So a hand on which the victory predicate holds is classified victory
  whatever the later predicates say, the point predicate included.
\<close>

theorem detectGesture_priority_order:
  assumes "length lms = 21"
  shows "detectGesture lms =
           Inr (first_match [(victory_pred lms, ''victory''), (love_pred lms, ''love''),
                             (thumbs_up_pred lms, ''thumbs_up''), (point_pred lms, ''point'')])
         \<and> (victory_pred lms \<longrightarrow> detectGesture lms = Inr ''victory'')"
proof -
  from assms have "21 \<le> length lms" by simp
  then have "detectGesture lms = Inr (spec_gesture lms)"
    by (rule detectGesture_spec)
  then show ?thesis
    by (simp add: spec_gesture_def)
qed

theorem detectGesture_priority_order_witness:
  "length victoryHand = 21 \<and> victory_pred victoryHand
   \<and> detectGesture victoryHand = Inr ''victory''
   \<and> length pointHand = 21 \<and> \<not> victory_pred pointHand \<and> \<not> love_pred pointHand
   \<and> \<not> thumbs_up_pred pointHand \<and> point_pred pointHand
   \<and> detectGesture pointHand = Inr ''point''"
proof -
  have v: "victory_pred victoryHand"
    by (simp add: pred_defs victoryHand_def distance_pt)
  have p: "\<not> victory_pred pointHand" "\<not> love_pred pointHand" "\<not> thumbs_up_pred pointHand"
    "point_pred pointHand"
    by (simp_all add: pred_defs pointHand_def distance_pt)
  have "detectGesture victoryHand = Inr ''victory''"
    using detectGesture_priority_order [of victoryHand] v by (simp add: length_hands)
  moreover have "detectGesture pointHand = Inr ''point''"
    using detectGesture_priority_order [of pointHand] p by (simp add: length_hands)
  ultimately show ?thesis
    using v p by (simp add: length_hands)
qed

text \<open>
  C9. The classifier returns one of the seven gestures' names only, but the declared type
  \<open>GestureType\<close> has four members: on the love hand \<open>detectGesture\<close> returns \<open>love\<close>, which
  is not one of them, and likewise \<open>thumbs_up\<close> and \<open>point\<close> on their hands.
\<close>

theorem detectGesture_leaves_GestureType:
  "detectGesture loveHand = Inr ''love'' \<and> ''love'' \<notin> GestureType
   \<and> detectGesture thumbsUpHand = Inr ''thumbs_up'' \<and> ''thumbs_up'' \<notin> GestureType
   \<and> detectGesture pointHand = Inr ''point'' \<and> ''point'' \<notin> GestureType
   \<and> GestureType \<noteq> {''none'', ''open'', ''fist'', ''victory'', ''love'', ''thumbs_up'', ''point''}"
proof -
  have "''love'' \<notin> GestureType" "''thumbs_up'' \<notin> GestureType" "''point'' \<notin> GestureType"
    by (simp_all add: GestureType_def)
  moreover from this(1)
  have "GestureType \<noteq> {''none'', ''open'', ''fist'', ''victory'', ''love'', ''thumbs_up'', ''point''}"
    by blast
  ultimately show ?thesis
    by (simp add: detectGesture_hands)
qed

section \<open>Properties of the aggregation\<close>

lemma hand_round_value:
  assumes "21 \<le> length h"
  shows "hand_round mh a i h =
     Inr (a\<lparr>totalTension := jadd (totalTension a) (hand_tension h),
            leftHand := (leftHand a \<or> handedness_label mh i \<noteq> Some ''Left''),
            rightHand := (rightHand a \<or> handedness_label mh i = Some ''Left''),
            detectedGesture :=
              (if hand_gesture h \<noteq> ''none'' then hand_gesture h else detectedGesture a)\<rparr>)"
proof -
  obtain t where t: "calculateTension h = Inr t"
    using assms by (simp add: calculateTension_def Let_def)
  obtain g where g: "detectGesture h = Inr g"
    using assms by (simp add: detectGesture_def Let_def)
  show ?thesis
    by (simp add: hand_round_def t g hand_tension_def hand_gesture_def Let_def)
qed

lemma find_app:
  "find P (xs @ ys) = (case find P xs of None \<Rightarrow> find P ys | Some x \<Rightarrow> Some x)"
  by (induction xs) simp_all

lemma find_SomeD: "find P xs = Some x \<Longrightarrow> P x"
  by (induction xs) (simp_all split: if_splits)

lemma last_specific_Cons:
  "last_specific (g # gs) =
     (case last_specific gs of Some g' \<Rightarrow> Some g'
      | None \<Rightarrow> if g \<noteq> ''none'' then Some g else None)"
  by (simp add: last_specific_def find_app split: option.splits)

lemma hands_loop_value:
  assumes "\<forall>h \<in> set hands. 21 \<le> length h"
  shows "\<exists>a'. hands_loop mh i a hands = Inr a'
     \<and> totalTension a' = foldl jadd (totalTension a) (map hand_tension hands)
     \<and> detectedGesture a' =
         (case last_specific (map hand_gesture hands) of Some g \<Rightarrow> g
          | None \<Rightarrow> detectedGesture a)"
  using assms
proof (induction hands arbitrary: i a)
  case Nil
  then show ?case by (simp add: last_specific_def)
next
  case (Cons h hands)
  then have h: "21 \<le> length h" and rest: "\<forall>h \<in> set hands. 21 \<le> length h"
    by simp_all
  define a1 where "a1 = a\<lparr>totalTension := jadd (totalTension a) (hand_tension h),
            leftHand := (leftHand a \<or> handedness_label mh i \<noteq> Some ''Left''),
            rightHand := (rightHand a \<or> handedness_label mh i = Some ''Left''),
            detectedGesture :=
              (if hand_gesture h \<noteq> ''none'' then hand_gesture h else detectedGesture a)\<rparr>"
  have step: "hands_loop mh i a (h # hands) = hands_loop mh (Suc i) a1 hands"
    by (simp add: hand_round_value [OF h] a1_def)
  from Cons.IH [OF rest, of "Suc i" a1] obtain a' where
    a': "hands_loop mh (Suc i) a1 hands = Inr a'"
      "totalTension a' = foldl jadd (totalTension a1) (map hand_tension hands)"
      "detectedGesture a' =
         (case last_specific (map hand_gesture hands) of Some g \<Rightarrow> g
          | None \<Rightarrow> detectedGesture a1)"
    by blast
  show ?case
    using a' step by (simp add: a1_def last_specific_Cons split: option.splits)
qed

lemma spec_tension_hands:
  "spec_tension victoryHand = 0.8" "spec_tension pointHand = 0.9"
  "spec_tension fistHand = 1" "spec_tension openHand = 0"
  by (simp_all add: spec_tension_def spec_curl_def tip_base_pairs_def victoryHand_def
      pointHand_def fistHand_def openHand_def distance_pt clamp01_def)

lemma calculateTension_hands:
  "calculateTension victoryHand = Inr (Fin 0.8)" "calculateTension pointHand = Inr (Fin 0.9)"
proof -
  have "distance (pointHand ! 0) (pointHand ! 9) \<noteq> 0"
    by (simp add: pointHand_def distance_pt)
  then show "calculateTension pointHand = Inr (Fin 0.9)"
    by (simp add: calculateTension_value length_hands spec_tension_hands)
  show "calculateTension victoryHand = Inr (Fin 0.8)"
    by (simp add: calculateTension_value length_hands spec_tension_hands palm_victoryHand)
qed

lemma hand_gesture_hands:
  "hand_gesture victoryHand = ''victory''" "hand_gesture pointHand = ''point''"
  by (simp_all add: hand_gesture_def detectGesture_hands)

text \<open>
  C5, as the code has it. For a tick with at least one hand, all of 21 landmarks, the
  aggregated gesture is the last gesture other than \<open>none\<close> among the hands in scan order (a
  later hand overwrites an earlier one); when no hand has one, it is \<open>fist\<close> if the mean
  tension exceeds 0.7, \<open>open\<close> if it is below 0.3, and \<open>none\<close> otherwise.
\<close>

theorem processResults_gesture_last_hand_wins:
  assumes "hands \<noteq> []" and "\<forall>h \<in> set hands. length h = 21"
  shows "\<exists>st. processResults \<lparr>multiHandLandmarks = Some hands, multiHandedness = mh\<rparr> = Inr st
     \<and> hs_tension st = mean_tension hands
     \<and> hs_gesture st =
         (case last_specific (map hand_gesture hands) of Some g \<Rightarrow> g
          | None \<Rightarrow> tension_gesture (mean_tension hands))"
proof -
  from assms(2) have len: "\<forall>h \<in> set hands. 21 \<le> length h"
    by simp
  define a0 where "a0 = \<lparr>totalTension = Fin 0, leftHand = False, rightHand = False,
    detectedGesture = ''none''\<rparr>"
  from hands_loop_value [OF len, of mh 0 a0]
  obtain a where "hands_loop mh 0 a0 hands = Inr a"
    "totalTension a = foldl jadd (totalTension a0) (map hand_tension hands)"
    "detectedGesture a =
       (case last_specific (map hand_gesture hands) of Some g \<Rightarrow> g
        | None \<Rightarrow> detectedGesture a0)"
    by blast
  then have a: "hands_loop mh 0
      \<lparr>totalTension = Fin 0, leftHand = False, rightHand = False, detectedGesture = ''none''\<rparr>
      hands = Inr a"
    "totalTension a = foldl jadd (Fin 0) (map hand_tension hands)"
    "detectedGesture a =
       (case last_specific (map hand_gesture hands) of Some g \<Rightarrow> g | None \<Rightarrow> ''none'')"
    by (simp_all add: a0_def split: option.splits)
  have run: "processResults \<lparr>multiHandLandmarks = Some hands, multiHandedness = mh\<rparr> =
      Inr \<lparr>hs_tension = mean_tension hands, hs_detected = True, hs_leftHand = leftHand a,
        hs_rightHand = rightHand a,
        hs_gesture = (if detectedGesture a = ''none'' then tension_gesture (mean_tension hands)
                      else detectedGesture a)\<rparr>"
    using assms(1) a(1,2)
    by (simp add: processResults_def Let_def mean_tension_def tension_gesture_def)
  show ?thesis
  proof (cases "last_specific (map hand_gesture hands)")
    case None
    with a(3) have "detectedGesture a = ''none''" by simp
    with run None show ?thesis by simp
  next
    case (Some g)
    then have "g \<noteq> ''none''"
      unfolding last_specific_def by (rule find_SomeD)
    moreover from a(3) Some have "detectedGesture a = g" by simp
    ultimately show ?thesis
      using run Some by simp
  qed
qed

theorem processResults_gesture_last_hand_wins_witness:
  "[victoryHand, pointHand] \<noteq> [] \<and> length victoryHand = 21 \<and> length pointHand = 21
   \<and> (\<exists>st. processResults \<lparr>multiHandLandmarks = Some [victoryHand, pointHand],
                            multiHandedness = None\<rparr> = Inr st
          \<and> hs_gesture st = ''point'')"
proof -
  have "\<forall>h \<in> set [victoryHand, pointHand]. length h = 21"
    by (simp add: length_hands)
  from processResults_gesture_last_hand_wins [OF _ this, of None]
  obtain st where "processResults \<lparr>multiHandLandmarks = Some [victoryHand, pointHand],
      multiHandedness = None\<rparr> = Inr st"
    and "hs_gesture st =
      (case last_specific (map hand_gesture [victoryHand, pointHand]) of Some g \<Rightarrow> g
       | None \<Rightarrow> tension_gesture (mean_tension [victoryHand, pointHand]))"
    by blast
  then show ?thesis
    by (simp add: length_hands hand_gesture_hands last_specific_def)
qed

text \<open>
  The claim as written fails: with a victory hand first and a pointing hand second, the first
  specific gesture in scan order is \<open>victory\<close>, and the aggregated gesture is \<open>point\<close>.
\<close>

theorem processResults_first_hand_counterexample:
  "first_specific (map hand_gesture [victoryHand, pointHand]) = Some ''victory''
   \<and> processResults \<lparr>multiHandLandmarks = Some [victoryHand, pointHand],
                     multiHandedness = Some [''Left'', ''Right'']\<rparr>
       = Inr \<lparr>hs_tension = Fin 0.85, hs_detected = True, hs_leftHand = True,
               hs_rightHand = True, hs_gesture = ''point''\<rparr>"
  by (simp add: first_specific_def hand_gesture_hands processResults_def hand_round_def
      handedness_label_def calculateTension_hands detectGesture_hands Let_def)

section \<open>Properties of the division guards\<close>

lemma curl_round_zero_palm:
  assumes "distance (lms ! (fingerTips ! i)) pb \<noteq> 0"
  shows "curl_round lms pb 0 (Fin t) i = Fin t"
proof -
  have "0 < distance (lms ! (fingerTips ! i)) pb"
    using assms distance_nonneg [of "lms ! (fingerTips ! i)" pb] by simp
  then show ?thesis
    by (simp add: curl_round_def Let_def jsub_def)
qed

lemma calculateTension_zero_palm:
  assumes "21 \<le> length lms" and "distance (lms ! 0) (lms ! 9) = 0"
    and "\<forall>tip \<in> set fingerTips. distance (lms ! tip) (lms ! 9) \<noteq> 0"
  shows "calculateTension lms = Inr (Fin 0)"
proof -
  have "distance (lms ! (fingerTips ! i)) (lms ! 9) \<noteq> 0" if "i \<in> {0, 1, 2, 3, 4}" for i
    using that assms(3) by (auto simp: fingerTips_def)
  then have "foldl (curl_round lms (lms ! 9) 0) (Fin 0) [0..<length fingerTips] = Fin 0"
    unfolding five_rounds by (simp add: curl_round_zero_palm)
  then show ?thesis
    using assms(1,2) by (simp add: calculateTension_def Let_def)
qed

text \<open>
  What does hold of the two divisions. The morph engine has its guard: when the distance of
  a particle's target from the origin is at most 0.01, each component of its direction is
  the fallback \<open>Math.random() - 0.5\<close> and nothing is divided. In \<open>calculateTension\<close> a palm
  size of 0 gives the tension 0 as long as the five finger tips are away from the palm base:
  each quotient is then \<open>+Infinity\<close> and each curl clamps to 0.
\<close>

lemma division_by_zero_fallbacks:
  "(sqrt (tx * tx + ty * ty + tz * tz) \<le> 0.01 \<longrightarrow>
      particle_direction (tx, ty, tz) (r1, r2, r3) = (r1 - 0.5, r2 - 0.5, r3 - 0.5))
   \<and> (21 \<le> length lms \<and> distance (lms ! 0) (lms ! 9) = 0
        \<and> (\<forall>tip \<in> set fingerTips. distance (lms ! tip) (lms ! 9) \<noteq> 0) \<longrightarrow>
      calculateTension lms = Inr (Fin 0))"
proof -
  have "particle_direction (tx, ty, tz) (r1, r2, r3) = (r1 - 0.5, r2 - 0.5, r3 - 0.5)"
    if "sqrt (tx * tx + ty * ty + tz * tz) \<le> 0.01"
    using that by (simp add: particle_direction_def Let_def)
  then show ?thesis
    using calculateTension_zero_palm [of lms] by blast
qed

lemma division_by_zero_fallbacks_example:
  "sqrt (0 * 0 + 0 * 0 + 0 * 0) \<le> (0.01 :: real)
   \<and> particle_direction (0, 0, 0) (0.25, 0.5, 0.75) = (- 0.25, 0, 0.25)
   \<and> 21 \<le> length flatPalmHand \<and> distance (flatPalmHand ! 0) (flatPalmHand ! 9) = 0
   \<and> distance (flatPalmHand ! 4) (flatPalmHand ! 9) \<noteq> 0
   \<and> distance (flatPalmHand ! 8) (flatPalmHand ! 9) \<noteq> 0
   \<and> distance (flatPalmHand ! 12) (flatPalmHand ! 9) \<noteq> 0
   \<and> distance (flatPalmHand ! 16) (flatPalmHand ! 9) \<noteq> 0
   \<and> distance (flatPalmHand ! 20) (flatPalmHand ! 9) \<noteq> 0
   \<and> calculateTension flatPalmHand = Inr (Fin 0)"
proof -
  have tips: "distance (flatPalmHand ! 4) (flatPalmHand ! 9) \<noteq> 0"
    "distance (flatPalmHand ! 8) (flatPalmHand ! 9) \<noteq> 0"
    "distance (flatPalmHand ! 12) (flatPalmHand ! 9) \<noteq> 0"
    "distance (flatPalmHand ! 16) (flatPalmHand ! 9) \<noteq> 0"
    "distance (flatPalmHand ! 20) (flatPalmHand ! 9) \<noteq> 0"
    by (simp_all add: flatPalmHand_def distance_pt)
  have palm: "distance (flatPalmHand ! 0) (flatPalmHand ! 9) = 0"
    by (simp add: flatPalmHand_def distance_pt)
  have all_tips: "\<forall>tip \<in> set fingerTips. distance (flatPalmHand ! tip) (flatPalmHand ! 9) \<noteq> 0"
    using tips by (simp add: fingerTips_def)
  have "calculateTension flatPalmHand = Inr (Fin 0)"
    using division_by_zero_fallbacks [of 0 0 0 "0.25" "0.5" "0.75" flatPalmHand] palm all_tips
    by (simp add: length_hands)
  moreover have "particle_direction (0, 0, 0) (0.25, 0.5, 0.75) = (- 0.25, 0, 0.25)"
    using division_by_zero_fallbacks [of 0 0 0 "0.25" "0.5" "0.75" flatPalmHand] by simp
  ultimately show ?thesis
    using tips palm by (simp add: length_hands)
qed

lemma detectGesture_zeroHand: "detectGesture zeroHand = Inr ''none''"
  by (simp add: detectGesture_def zeroHand_def distance_pt Let_def)

lemma calculateTension_zeroHand: "calculateTension zeroHand = Inr NaN"
  by (simp add: calculateTension_def curl_round_def fingerTips_def fingerBases_def zeroHand_def
      distance_pt upt_rec jsub_def Let_def)

text \<open>
  C4. The claim asks for a defined tension when the palm size is 0, and the code misses it:
  \<open>calculateTension\<close> divides by the palm size without a test, so on the hand with all 21
  landmarks at one place, where the palm size is 0 and every finger tip is on the palm base,
  each quotient is 0/0, the two clamps let \<open>NaN\<close> through and the tension returned is
  \<open>NaN\<close>. The aggregation passes it on: the state given to \<open>onUpdate\<close> for this hand has
  the tension \<open>NaN\<close>, outside the range from 0 to 1 that the comment on
  \<open>HandState.tension\<close> gives.
\<close>

theorem calculateTension_zero_palm_is_NaN:
  "length zeroHand = 21 \<and> distance (zeroHand ! 0) (zeroHand ! 9) = 0
   \<and> calculateTension zeroHand = Inr NaN
   \<and> processResults \<lparr>multiHandLandmarks = Some [zeroHand], multiHandedness = None\<rparr>
       = Inr \<lparr>hs_tension = NaN, hs_detected = True, hs_leftHand = True,
               hs_rightHand = False, hs_gesture = ''none''\<rparr>"
proof -
  have "distance (zeroHand ! 0) (zeroHand ! 9) = 0"
    by (simp add: zeroHand_def distance_pt)
  moreover have "processResults \<lparr>multiHandLandmarks = Some [zeroHand], multiHandedness = None\<rparr>
       = Inr \<lparr>hs_tension = NaN, hs_detected = True, hs_leftHand = True,
               hs_rightHand = False, hs_gesture = ''none''\<rparr>"
    by (simp add: processResults_def hand_round_def handedness_label_def
        calculateTension_zeroHand detectGesture_zeroHand jlt_def Let_def)
  ultimately show ?thesis
    by (simp add: length_hands calculateTension_zeroHand)
qed

section \<open>Properties of the burst accumulators\<close>

lemma frame_refs_in_range:
  assumes "refs_in_range m" and "0 \<le> delta"
  shows "refs_in_range (frame_refs shape tension delta m)"
  using assms by (auto simp: frame_refs_def refs_in_range_def Let_def min_def)

lemma run_frames_in_range:
  assumes "refs_in_range m" and "\<forall>(shape, tension, delta) \<in> set frames. 0 \<le> delta"
  shows "refs_in_range (run_frames frames m)"
  using assms
proof (induction frames arbitrary: m)
  case Nil
  then show ?case by (simp add: run_frames_def)
next
  case (Cons f frames)
  obtain shape tension delta where f: "f = (shape, tension, delta)"
    by (cases f)
  with Cons.prems have "refs_in_range (frame_refs shape tension delta m)"
    by (simp add: frame_refs_in_range)
  from Cons.IH [OF this] Cons.prems(2) show ?case
    by (simp add: run_frames_def f)
qed

lemma frame_refs_decay:
  assumes "shape \<noteq> TEXT"
  shows "burstEnergy (frame_refs shape tension delta m) =
           (if tension - prevTension m < - 0.015
            then min (burstEnergy m + (prevTension m - tension) * 25) 5
            else burstEnergy m) * 0.92"
    and "explosionPhase (frame_refs shape tension delta m) =
           (if tension - prevTension m < - 0.015
            then min (explosionPhase m + (prevTension m - tension) * 30) 1
            else explosionPhase m) * 0.95"
    and "cumulativeExplosion (frame_refs shape tension delta m) =
           (if tension - prevTension m < - 0.015
            then min (cumulativeExplosion m + (prevTension m - tension) * 10) 2
            else cumulativeExplosion m) * 0.98"
    and "shockwaveRadius (frame_refs shape tension delta m) =
           (if burstEnergy (frame_refs shape tension delta m) / 0.92 > 0.5
            then shockwaveRadius m
                   + delta * 15 * (burstEnergy (frame_refs shape tension delta m) / 0.92)
            else shockwaveRadius m) * 0.96"
  using assms by (auto simp: frame_refs_def Let_def min_def)

text \<open>
  C7. From refs initialised to zero, any run of frames with tensions in [0, 1] and frame
  deltas that are not negative keeps \<open>burstEnergy\<close> in [0, 5], \<open>explosionPhase\<close> in [0, 1],
  \<open>cumulativeExplosion\<close> in [0, 2] and \<open>shockwaveRadius\<close> at 0 or above. A frame that is not in
  text mode keeps this range, caps the three increments of a rapid opening (the tension
  falling by more than 0.015) at 5, 1 and 2, and then multiplies the four refs by 0.92, 0.95,
  0.98 and 0.96.
\<close>

theorem burst_accumulators_in_range:
  assumes "\<forall>(shape, tension, delta) \<in> set frames. 0 \<le> tension \<and> tension \<le> 1 \<and> 0 \<le> delta"
    and "refs_in_range m" and "shape \<noteq> TEXT" and "0 \<le> tension" and "tension \<le> 1"
    and "0 \<le> delta"
  shows "refs_in_range (run_frames frames (initial_refs t0))
    \<and> refs_in_range (frame_refs shape tension delta m)
    \<and> burstEnergy (frame_refs shape tension delta m) =
           (if tension - prevTension m < - 0.015
            then min (burstEnergy m + (prevTension m - tension) * 25) 5
            else burstEnergy m) * 0.92
    \<and> explosionPhase (frame_refs shape tension delta m) =
           (if tension - prevTension m < - 0.015
            then min (explosionPhase m + (prevTension m - tension) * 30) 1
            else explosionPhase m) * 0.95
    \<and> cumulativeExplosion (frame_refs shape tension delta m) =
           (if tension - prevTension m < - 0.015
            then min (cumulativeExplosion m + (prevTension m - tension) * 10) 2
            else cumulativeExplosion m) * 0.98
    \<and> shockwaveRadius (frame_refs shape tension delta m) =
           (if burstEnergy (frame_refs shape tension delta m) / 0.92 > 0.5
            then shockwaveRadius m
                   + delta * 15 * (burstEnergy (frame_refs shape tension delta m) / 0.92)
            else shockwaveRadius m) * 0.96"
proof -
  have "refs_in_range (initial_refs t0)"
    by (simp add: refs_in_range_def initial_refs_def)
  moreover from assms(1) have "\<forall>(shape, tension, delta) \<in> set frames. 0 \<le> delta"
    by auto
  ultimately have run: "refs_in_range (run_frames frames (initial_refs t0))"
    by (rule run_frames_in_range)
  have step: "refs_in_range (frame_refs shape tension delta m)"
    using assms(2,6) by (rule frame_refs_in_range)
  show ?thesis
    by (intro conjI run step frame_refs_decay [OF assms(3)])
qed

theorem burst_accumulators_in_range_witness:
  "0 \<le> (1::real) \<and> (1::real) \<le> 1 \<and> 0 \<le> (0.016::real) \<and> 0 \<le> (0.5::real) \<and> (0.5::real) \<le> 1
   \<and> refs_in_range (initial_refs 1) \<and> SPHERE \<noteq> TEXT
   \<and> refs_in_range (run_frames [(SPHERE, 1, 0.016), (SPHERE, 0.5, 0.016)] (initial_refs 1))
   \<and> refs_in_range (frame_refs SPHERE 0.5 0.016 (initial_refs 1))
   \<and> burstEnergy (frame_refs SPHERE 0.5 0.016 (initial_refs 1)) = 4.6
   \<and> explosionPhase (frame_refs SPHERE 0.5 0.016 (initial_refs 1)) = 0.95
   \<and> cumulativeExplosion (frame_refs SPHERE 0.5 0.016 (initial_refs 1)) = 1.96"
proof -
  have frames: "\<forall>(shape, tension, delta) \<in> set [(SPHERE, 1, 0.016), (SPHERE, 0.5 :: real, 0.016 :: real)].
      0 \<le> tension \<and> tension \<le> 1 \<and> 0 \<le> delta"
    by simp
  have m: "refs_in_range (initial_refs 1)"
    by (simp add: refs_in_range_def initial_refs_def)
  have vals: "prevTension (initial_refs 1) = 1" "burstEnergy (initial_refs 1) = 0"
    "explosionPhase (initial_refs 1) = 0" "cumulativeExplosion (initial_refs 1) = 0"
    by (simp_all add: initial_refs_def)
  from burst_accumulators_in_range [OF frames m, of SPHERE "0.5" "0.016" 1]
  show ?thesis
    using m by (simp add: vals)
qed

section \<open>Properties of the shape library\<close>

lemma take3_update:
  assumes "3 * i + 3 \<le> length ps"
  shows "take (3 * Suc i) (ps[i * 3 := x, i * 3 + 1 := y, i * 3 + 2 := z])
         = take (3 * i) ps @ [x, y, z]"
proof (rule nth_equalityI)
  show "length (take (3 * Suc i) (ps[i * 3 := x, i * 3 + 1 := y, i * 3 + 2 := z]))
        = length (take (3 * i) ps @ [x, y, z])"
    using assms by simp
next
  fix j
  assume "j < length (take (3 * Suc i) (ps[i * 3 := x, i * 3 + 1 := y, i * 3 + 2 := z]))"
  then have j: "j < 3 * i + 3"
    by simp
  consider "j < 3 * i" | "j = 3 * i" | "j = 3 * i + 1" | "j = 3 * i + 2"
    using j by linarith
  then show "take (3 * Suc i) (ps[i * 3 := x, i * 3 + 1 := y, i * 3 + 2 := z]) ! j
             = (take (3 * i) ps @ [x, y, z]) ! j"
    using assms by cases (simp_all add: nth_append mult.commute)
qed

lemma fill_points:
  assumes "\<forall>i k. \<exists>p k'. gen i k = Inr (p, k')"
    and "length ps = 3 * (i + m)"
  shows "\<exists>k'. fill gen [i..<i + m] k ps
            = Inr (take (3 * i) ps @ flatten (gen_points gen [i..<i + m] k), k')
         \<and> length (gen_points gen [i..<i + m] k) = m"
  using assms(2)
proof (induction m arbitrary: i k ps)
  case 0
  then show ?case by (simp add: flatten_def)
next
  case (Suc m)
  from assms(1) obtain x y z k1 where g: "gen i k = Inr ((x, y, z), k1)"
    by (metis prod_cases3)
  define ps1 where "ps1 = ps[i * 3 := x, i * 3 + 1 := y, i * 3 + 2 := z]"
  have range: "[i..<i + Suc m] = i # [Suc i..<Suc i + m]"
    by (simp add: upt_rec)
  have len1: "length ps1 = 3 * (Suc i + m)"
    using Suc.prems by (simp add: ps1_def)
  from Suc.IH [OF len1, of k1] obtain k' where
    rest: "fill gen [Suc i..<Suc i + m] k1 ps1
            = Inr (take (3 * Suc i) ps1 @ flatten (gen_points gen [Suc i..<Suc i + m] k1), k')"
    and n: "length (gen_points gen [Suc i..<Suc i + m] k1) = m"
    by blast
  have "take (3 * Suc i) ps1 = take (3 * i) ps @ [x, y, z]"
    unfolding ps1_def using Suc.prems by (intro take3_update) simp
  with rest n show ?case
    unfolding range by (simp add: g ps1_def flatten_def)
qed

lemma fill_cloud:
  assumes "\<forall>i k. \<exists>p k'. gen i k = Inr (p, k')"
  shows "map_sum id fst (fill gen [0..<count] 0 (replicate (count * 3) 0))
           = Inr (flatten (gen_points gen [0..<count] 0))
         \<and> length (gen_points gen [0..<count] 0) = count"
  using fill_points [OF assms, of "replicate (count * 3) 0" 0 count 0]
  by auto

lemma length_flatten: "length (flatten ps) = 3 * length ps"
  by (induction ps) (auto simp: flatten_def)

lemma fireworks_point_ok:
  assumes "0 \<le> rnd k" and "rnd k < 1"
  shows "\<exists>p k'. fireworks_point rnd k = Inr (p, k')"
proof -
  have "0 \<le> \<lfloor>rnd k * 5\<rfloor>" using assms(1) by simp
  moreover have "\<lfloor>rnd k * 5\<rfloor> < 5" using assms(2) by (simp add: floor_less_iff)
  ultimately show ?thesis
    by (auto simp: fireworks_point_def Let_def burstCenters_def split: prod.splits)
qed

lemma shape_point_ok:
  assumes "\<forall>k. 0 \<le> rnd k \<and> rnd k < 1"
  shows "\<exists>p k'. shape_point shape count rnd i k = Inr (p, k')"
proof (cases shape)
  case FIREWORKS
  then show ?thesis
    using fireworks_point_ok [of rnd k] assms by (simp add: shape_point_def)
qed (simp_all add: shape_point_def prod_eq_iff)

lemma text_point_ok: "\<exists>p k'. text_point textPixels rnd i k = Inr (p, k')"
proof -
  have "\<exists>r. text_point textPixels rnd i k = Inr r"
    unfolding text_point_def Let_def by (simp only: split: if_split prod.split) blast
  then show ?thesis
    by (metis surj_pair)
qed

lemma gen_points_grid:
  "gen_points (text_point [] rnd) [i..<i + m] k = map grid_point [i..<i + m]"
proof (induction m arbitrary: i)
  case 0
  then show ?case by simp
next
  case (Suc m)
  have "[i..<i + Suc m] = i # [Suc i..<Suc i + m]"
    by (simp add: upt_rec)
  then show ?case
    using Suc.IH [of "Suc i"] by (simp add: text_point_def grid_point_def)
qed

lemma scan_no_foreground:
  assumes "\<forall>i. pixels i \<le> 100"
  shows "scan_textPixels pixels = []"
proof -
  have "\<not> pixels i > 100" for i
    using assms by (simp add: not_less)
  then show ?thesis
    by (simp add: scan_textPixels_def Let_def)
qed

text \<open>
  C8. For every shape of the catalog, every count of at least 1 and every text, with
  \<open>Math.random()\<close> returning values in [0, 1), the position array returned is the sequence
  of the coordinates of exactly \<open>count\<close> generated points, one for each index below
  \<open>count\<close>: it has length \<open>3 * count\<close> and every entry has been assigned. For the text shape
  with no foreground pixel found, the points are those of the fallback grid.
\<close>

theorem GenerateParticles_cardinality:
  assumes "1 \<le> count" and "\<forall>k. 0 \<le> rnd k \<and> rnd k < 1"
  shows "GenerateParticles canvas rnd count shape customText
           = Inr (flatten (cloud canvas rnd count shape customText))
         \<and> length (cloud canvas rnd count shape customText) = count
         \<and> length (flatten (cloud canvas rnd count shape customText)) = 3 * count
         \<and> (shape = TEXT \<and> scan_textPixels (canvas (text_or_default customText)) = [] \<longrightarrow>
              cloud canvas rnd count shape customText = map grid_point [0..<count])"
proof (cases "shape = TEXT")
  case True
  define textPixels where "textPixels = scan_textPixels (canvas (text_or_default customText))"
  have ok: "\<forall>i k. \<exists>p k'. text_point textPixels rnd i k = Inr (p, k')"
    by (intro allI text_point_ok)
  have grid: "gen_points (text_point [] rnd) [0..<count] 0 = map grid_point [0..<count]"
    using gen_points_grid [of rnd 0 count 0] by simp
  from fill_cloud [OF ok, of count] show ?thesis
    using True grid
    by (simp add: GenerateParticles_def generateTextPoints_def cloud_def Let_def
        textPixels_def length_flatten)
next
  case False
  have ok: "\<forall>i k. \<exists>p k'. shape_point shape count rnd i k = Inr (p, k')"
    using shape_point_ok [OF assms(2)] by blast
  from fill_cloud [OF ok, of count] show ?thesis
    using False by (simp add: GenerateParticles_def cloud_def Let_def length_flatten)
qed

theorem GenerateParticles_cardinality_witness:
  "1 \<le> (2::nat) \<and> 0 \<le> (1/2 :: real) \<and> (1/2 :: real) < 1
   \<and> scan_textPixels ((\<lambda>t i. 0) (text_or_default None)) = []
   \<and> GenerateParticles (\<lambda>t i. 0) (\<lambda>k. 1/2) 2 TEXT None = Inr [- 3, - 1.5, 0, - 2.7, - 1.5, 0]
   \<and> (\<exists>ps. GenerateParticles (\<lambda>t i. 0) (\<lambda>k. 1/2) 2 SPHERE None = Inr ps \<and> length ps = 6)"
proof -
  have rnd: "\<forall>k::nat. 0 \<le> (1/2 :: real) \<and> (1/2 :: real) < 1"
    by simp
  have none: "scan_textPixels ((\<lambda>t i. 0) (text_or_default None)) = []"
    by (simp add: scan_no_foreground)
  have two: "[0..<2] = [0, 1]"
    by (simp add: upt_rec)
  have "GenerateParticles (\<lambda>t i. 0) (\<lambda>k. 1/2) 2 TEXT None = Inr [- 3, - 1.5, 0, - 2.7, - 1.5, 0]"
    using GenerateParticles_cardinality [OF _ rnd, of 2 "\<lambda>t i. 0" TEXT None] none
    by (simp add: two grid_point_def flatten_def)
  moreover have "\<exists>ps. GenerateParticles (\<lambda>t i. 0) (\<lambda>k. 1/2) 2 SPHERE None = Inr ps \<and> length ps = 6"
    using GenerateParticles_cardinality [OF _ rnd, of 2 "\<lambda>t i. 0" SPHERE None] by simp
  ultimately show ?thesis
    using none by simp
qed

section \<open>Properties of the gesture debouncer\<close>

lemma timers_clear_pending:
  assumes "owned s"
  shows "timers (clear_pending s) = []"
proof (cases "gestureTimerRef s")
  case None
  with assms have "timers s = []"
    by (cases "timers s") (auto simp: owned_def)
  with None show ?thesis
    by (simp add: clear_pending_def)
next
  case (Some t)
  with assms show ?thesis
    by (auto simp: owned_def clear_pending_def clearTimeout_def filter_empty_conv)
qed

lemma clear_pending_empty: "timers s = [] \<Longrightarrow> timers (clear_pending s) = []"
  by (simp add: clear_pending_def clearTimeout_def split: option.splits)

lemma clear_pending_fields [simp]:
  "handData_gesture (clear_pending s) = handData_gesture s"
  "currentGesture (clear_pending s) = currentGesture s"
  "activeShape (clear_pending s) = activeShape s"
  "particleColor (clear_pending s) = particleColor s"
  "previousShape (clear_pending s) = previousShape s"
  "previousColor (clear_pending s) = previousColor s"
  "gestureTimerRef (clear_pending s) = gestureTimerRef s"
  "nextTimer (clear_pending s) = nextTimer s"
  by (simp_all add: clear_pending_def clearTimeout_def split: option.splits)

lemma only_timer_iff:
  "only_timer s limit cb ts \<longleftrightarrow>
     (\<exists>t ms. ts = [(t, ms, cb)] \<and> gestureTimerRef s = Some t \<and> t < nextTimer s \<and> 0 < ms
        \<and> ms \<le> limit)"
  by (induction s limit cb ts rule: only_timer.induct) auto

lemma settled_owned: "settled s \<Longrightarrow> owned s"
  by (auto simp: settled_def owned_def only_timer_iff split: option.splits)

lemma rerun_fields [simp]:
  "handData_gesture (rerun_effect s) = handData_gesture s"
  "activeShape (rerun_effect s) = activeShape s"
  "particleColor (rerun_effect s) = particleColor s"
  "previousShape (rerun_effect s) = previousShape s"
  "previousColor (rerun_effect s) = previousColor s"
  by (simp_all add: rerun_effect_def gesture_effect_def setTimeout_ref_def Let_def)

lemma rerun_current:
  "currentGesture (rerun_effect s) =
     (if handData_gesture s \<notin> set specialGestures \<and> currentGesture s \<notin> set specialGestures
      then handData_gesture s else currentGesture s)"
  by (simp add: rerun_effect_def gesture_effect_def setTimeout_ref_def Let_def)

lemma rerun_timers:
  assumes "owned s"
  shows "timers (rerun_effect s) =
     (case pending s of None \<Rightarrow> [] | Some (limit, cb) \<Rightarrow> [(nextTimer s, limit, cb)])"
    and "pending s \<noteq> None \<Longrightarrow> gestureTimerRef (rerun_effect s) = Some (nextTimer s)"
    and "pending s \<noteq> None \<Longrightarrow> nextTimer (rerun_effect s) = Suc (nextTimer s)"
    and "pending s = None \<Longrightarrow> nextTimer (rerun_effect s) = nextTimer s"
  using timers_clear_pending [OF assms]
  by (simp_all add: rerun_effect_def gesture_effect_def setTimeout_ref_def Let_def pending_def
      clear_pending_empty split: if_splits)

lemma rerun_settled:
  assumes "owned s"
  shows "settled (rerun_effect s)"
proof (cases "handData_gesture s \<notin> set specialGestures \<and> currentGesture s \<notin> set specialGestures")
  case True
  then have "currentGesture (rerun_effect s) = handData_gesture s"
    by (simp add: rerun_current)
  moreover from this have "pending (rerun_effect s) = None"
    by (simp add: pending_def)
  moreover have "timers (rerun_effect s) = []"
    using True timers_clear_pending [OF assms]
    by (simp add: rerun_effect_def gesture_effect_def Let_def clear_pending_empty)
  ultimately show ?thesis
    by (simp add: settled_def)
next
  case False
  then have cur: "currentGesture (rerun_effect s) = currentGesture s"
    unfolding rerun_current by (cases "handData_gesture s \<in> set specialGestures") simp_all
  then have p: "pending (rerun_effect s) = pending s"
    by (simp add: pending_def)
  show ?thesis
  proof (cases "pending s")
    case None
    with False have "handData_gesture s = currentGesture s"
      by (auto simp: pending_def split: if_splits)
    with None p rerun_timers(1) [OF assms] show ?thesis
      by (simp add: settled_def cur)
  next
    case (Some lc)
    obtain limit cb where lc: "lc = (limit, cb)" by (cases lc)
    have "0 < limit"
      using Some lc by (auto simp: pending_def split: if_splits)
    then show ?thesis
      using p Some lc rerun_timers [OF assms]
      by (simp add: settled_def only_timer_iff)
  qed
qed

lemma commit_settled:
  assumes "owned new" and "deps new \<noteq> deps old"
  shows "settled (commit old new)"
  using assms rerun_settled [OF assms(1)] rerun_settled [OF settled_owned]
  by (simp add: commit_def Let_def)

lemma commit_same: "deps new = deps old \<Longrightarrow> commit old new = new"
  by (simp add: commit_def)

lemma commit_fields [simp]:
  "handData_gesture (commit old new) = handData_gesture new"
  "activeShape (commit old new) = activeShape new"
  "particleColor (commit old new) = particleColor new"
  "previousShape (commit old new) = previousShape new"
  "previousColor (commit old new) = previousColor new"
  by (simp_all add: commit_def Let_def)

lemma commit_current:
  assumes "deps new \<noteq> deps old"
  shows "currentGesture (commit old new) =
     (if handData_gesture new \<notin> set specialGestures \<and> currentGesture new \<notin> set specialGestures
      then handData_gesture new else currentGesture new)"
  using assms by (simp add: commit_def Let_def rerun_current)

lemma commit_timers:
  assumes "owned new" and "deps new \<noteq> deps old"
  shows "timers (commit old new) =
     (case pending new of None \<Rightarrow> [] | Some (limit, cb) \<Rightarrow> [(nextTimer new, limit, cb)])"
proof (cases "deps (rerun_effect new) = deps new")
  case True
  with assms show ?thesis
    by (simp add: commit_def Let_def rerun_timers)
next
  case False
  then have changed: "currentGesture (rerun_effect new) \<noteq> currentGesture new"
    by (simp add: deps_def)
  then have both: "handData_gesture new \<notin> set specialGestures"
    "currentGesture new \<notin> set specialGestures"
    and cur: "currentGesture (rerun_effect new) = handData_gesture new"
    by (simp_all add: rerun_current split: if_splits)
  from changed cur have "pending new = None"
    using both by (simp add: pending_def)
  moreover have "pending (rerun_effect new) = None"
    using cur by (simp add: pending_def)
  moreover have "owned (rerun_effect new)"
    using assms(1) by (rule settled_owned [OF rerun_settled])
  ultimately show ?thesis
    using assms False by (simp add: commit_def Let_def rerun_timers)
qed

lemma advance_none: "timers s = [] \<Longrightarrow> advance_timers s = s"
  by (simp add: advance_timers_def)

lemma advance_wait:
  "timers s = [(t, ms, cb)] \<Longrightarrow> 1 < ms \<Longrightarrow> advance_timers s = s\<lparr>timers := [(t, ms - 1, cb)]\<rparr>"
  by (simp add: advance_timers_def)

lemma advance_fire:
  "timers s = [(t, ms, cb)] \<Longrightarrow> ms \<le> 1 \<Longrightarrow> advance_timers s = run_callback cb (s\<lparr>timers := []\<rparr>)"
  by (simp add: advance_timers_def)

lemma none_not_special [simp]: "''none'' \<notin> set specialGestures"
  by (simp add: specialGestures_def)

lemma run_callback_untouched [simp]:
  "handData_gesture (run_callback cb s) = handData_gesture s"
  "timers (run_callback cb s) = timers s"
  "gestureTimerRef (run_callback cb s) = gestureTimerRef s"
  "nextTimer (run_callback cb s) = nextTimer s"
  by (cases cb; simp add: Let_def)+

lemma run_Release [simp]:
  "currentGesture (run_callback (Release shape color) s) = ''none''"
  "activeShape (run_callback (Release shape color) s) = shape"
  "particleColor (run_callback (Release shape color) s) = color"
  "previousShape (run_callback (Release shape color) s) = previousShape s"
  "previousColor (run_callback (Release shape color) s) = previousColor s"
  by simp_all

lemma run_Confirm [simp]:
  "currentGesture (run_callback (Confirm g current shape color) s) = g"
  "previousShape (run_callback (Confirm g current shape color) s) =
     (if current \<notin> set specialGestures then shape else previousShape s)"
  "previousColor (run_callback (Confirm g current shape color) s) =
     (if current \<notin> set specialGestures then color else previousColor s)"
  by (simp_all add: Let_def)

lemma run_Confirm_look:
  assumes "g \<in> set specialGestures"
  shows "activeShape (run_callback (Confirm g current shape color) s) = fst (gesture_look g)"
    and "particleColor (run_callback (Confirm g current shape color) s) = snd (gesture_look g)"
  using assms by (auto simp: Let_def gesture_look_def specialGestures_def)

declare run_callback.simps [simp del]

lemma settled_cases:
  assumes "settled s"
  obtains (idle) "timers s = []" "handData_gesture s = currentGesture s"
  | (confirming) t ms where
      "timers s = [(t, ms, Confirm (handData_gesture s) (currentGesture s) (activeShape s)
                             (particleColor s))]"
      "handData_gesture s \<in> set specialGestures" "handData_gesture s \<noteq> currentGesture s"
      "gestureTimerRef s = Some t" "t < nextTimer s" "0 < ms" "ms \<le> 300"
  | (releasing) t ms where
      "timers s = [(t, ms, Release (previousShape s) (previousColor s))]"
      "handData_gesture s \<notin> set specialGestures" "currentGesture s \<in> set specialGestures"
      "gestureTimerRef s = Some t" "t < nextTimer s" "0 < ms" "ms \<le> 1000"
  using assms
  by (auto simp: settled_def pending_def only_timer_iff split: if_splits)

lemma settled_tick:
  assumes "settled s"
  shows "settled (step Tick s)"
  using assms
proof (cases rule: settled_cases)
  case idle
  with assms show ?thesis
    by (simp add: advance_none commit_same)
next
  case (confirming t ms)
  show ?thesis
  proof (cases "1 < ms")
    case True
    have "settled (s\<lparr>timers := [(t, ms - 1, Confirm (handData_gesture s) (currentGesture s)
        (activeShape s) (particleColor s))]\<rparr>)"
      using confirming True by (simp add: settled_def pending_def only_timer_iff)
    then show ?thesis
      using confirming(1) True by (simp add: advance_wait commit_same deps_def)
  next
    case False
    then have fire: "advance_timers s =
        run_callback (Confirm (handData_gesture s) (currentGesture s) (activeShape s)
          (particleColor s)) (s\<lparr>timers := []\<rparr>)"
      using confirming(1) by (simp add: advance_fire)
    have "currentGesture (advance_timers s) = handData_gesture s"
      unfolding fire by (simp add: Let_def)
    then have "deps (advance_timers s) \<noteq> deps s"
      using confirming(3) by (simp add: deps_def)
    moreover have "owned (advance_timers s)"
      unfolding fire by (simp add: owned_def)
    ultimately show ?thesis
      by (simp add: commit_settled)
  qed
next
  case (releasing t ms)
  show ?thesis
  proof (cases "1 < ms")
    case True
    have "settled (s\<lparr>timers := [(t, ms - 1, Release (previousShape s) (previousColor s))]\<rparr>)"
      using releasing True by (auto simp: settled_def pending_def only_timer_iff)
    then show ?thesis
      using releasing(1) True by (simp add: advance_wait commit_same deps_def)
  next
    case False
    then have fire: "advance_timers s =
        run_callback (Release (previousShape s) (previousColor s)) (s\<lparr>timers := []\<rparr>)"
      using releasing(1) by (simp add: advance_fire)
    have "currentGesture (advance_timers s) = ''none''"
      unfolding fire by simp
    moreover have "currentGesture s \<noteq> ''none''"
      using releasing(3) none_not_special by metis
    ultimately have "deps (advance_timers s) \<noteq> deps s"
      by (simp add: deps_def)
    moreover have "owned (advance_timers s)"
      unfolding fire by (simp add: owned_def)
    ultimately show ?thesis
      by (simp add: commit_settled)
  qed
qed

lemma settled_update:
  assumes "settled s" and "timers new = timers s" and "gestureTimerRef new = gestureTimerRef s"
    and "deps new = deps s \<Longrightarrow> new = s"
  shows "settled (commit s new)"
proof (cases "deps new = deps s")
  case True
  with assms show ?thesis
    by (simp add: commit_same)
next
  case False
  have "owned new"
    using settled_owned [OF assms(1)] assms(2,3) by (simp add: owned_def)
  then show ?thesis
    using False by (rule commit_settled)
qed

lemma settled_step:
  assumes "settled s"
  shows "settled (step e s)"
proof (cases e)
  case Tick
  with settled_tick [OF assms] show ?thesis
    by simp
next
  case (Raw g)
  have "settled (commit s (s\<lparr>handData_gesture := g\<rparr>))"
    using assms by (rule settled_update) (auto simp: deps_def)
  with Raw show ?thesis by simp
next
  case (PickShape shape)
  have "settled (commit s (s\<lparr>activeShape := shape\<rparr>))"
    using assms by (rule settled_update) (auto simp: deps_def)
  with PickShape show ?thesis by simp
next
  case (PickColor color)
  have "settled (commit s (s\<lparr>particleColor := color\<rparr>))"
    using assms by (rule settled_update) (auto simp: deps_def)
  with PickColor show ?thesis by simp
next
  case StopTracking
  have "s\<lparr>handData_gesture := ''none'', currentGesture := ''none''\<rparr> = s"
    if "handData_gesture s = ''none''" "currentGesture s = ''none''"
    using that by simp
  then have "settled (commit s (s\<lparr>handData_gesture := ''none'', currentGesture := ''none''\<rparr>))"
    using assms by (intro settled_update) (auto simp: deps_def)
  with StopTracking show ?thesis by simp
qed

lemma settled_init: "settled app_init"
  by (simp add: settled_def pending_def app_init_def)

lemma run_snoc: "run (events @ [e]) s = step e (run events s)"
  by (simp add: run_def)

lemma run_Cons: "run (e # events) s = run events (step e s)"
  by (simp add: run_def)

lemma run_Nil: "run [] s = s"
  by (simp add: run_def)

lemma settled_run:
  assumes "settled s"
  shows "settled (run events s)"
  using assms by (induction events arbitrary: s) (simp_all add: run_Nil run_Cons settled_step)

lemma ticks_0: "ticks 0 s = s"
  by (simp add: ticks_def run_Nil)

lemma ticks_Suc: "ticks (Suc n) s = step Tick (ticks n s)"
  by (simp add: ticks_def run_snoc [symmetric] replicate_append_same)

lemma settled_ticks: "settled s \<Longrightarrow> settled (ticks n s)"
  by (simp add: ticks_def settled_run)

lemma ticks_wait:
  assumes "timers s = [(t, ms, cb)]" and "n < ms"
  shows "ticks n s = s\<lparr>timers := [(t, ms - n, cb)]\<rparr>"
  using assms(2)
proof (induction n)
  case 0
  with assms(1) show ?case
    by (simp add: ticks_0)
next
  case (Suc n)
  then have "ticks n s = s\<lparr>timers := [(t, ms - n, cb)]\<rparr>" and "1 < ms - n"
    by simp_all
  then show ?case
    by (simp add: ticks_Suc advance_wait commit_same deps_def)
qed

subsection \<open>A raw gesture changes\<close>

lemma raw_change:
  assumes "settled s" and "g \<noteq> handData_gesture s"
  shows "currentGesture (step (Raw g) s) =
           (if g \<notin> set specialGestures \<and> currentGesture s \<notin> set specialGestures
            then g else currentGesture s)"
    and "timers (step (Raw g) s) =
           (case pending (s\<lparr>handData_gesture := g\<rparr>) of None \<Rightarrow> []
            | Some (limit, cb) \<Rightarrow> [(nextTimer s, limit, cb)])"
proof -
  have changed: "deps (s\<lparr>handData_gesture := g\<rparr>) \<noteq> deps s"
    using assms(2) by (simp add: deps_def)
  have own: "owned (s\<lparr>handData_gesture := g\<rparr>)"
    using settled_owned [OF assms(1)] by (simp add: owned_def)
  show "currentGesture (step (Raw g) s) =
           (if g \<notin> set specialGestures \<and> currentGesture s \<notin> set specialGestures
            then g else currentGesture s)"
    by (simp add: commit_current [OF changed])
  show "timers (step (Raw g) s) =
           (case pending (s\<lparr>handData_gesture := g\<rparr>) of None \<Rightarrow> []
            | Some (limit, cb) \<Rightarrow> [(nextTimer s, limit, cb)])"
    by (simp add: commit_timers [OF own changed] split: option.splits)
qed

lemma raw_fields [simp]:
  "handData_gesture (step (Raw g) s) = g"
  "activeShape (step (Raw g) s) = activeShape s"
  "particleColor (step (Raw g) s) = particleColor s"
  "previousShape (step (Raw g) s) = previousShape s"
  "previousColor (step (Raw g) s) = previousColor s"
  by simp_all

lemma raw_special:
  assumes "settled s" and "g \<in> set specialGestures" and "g \<noteq> currentGesture s"
    and "g \<noteq> handData_gesture s"
  shows "timers (step (Raw g) s) =
           [(nextTimer s, 300, Confirm g (currentGesture s) (activeShape s) (particleColor s))]"
    and "currentGesture (step (Raw g) s) = currentGesture s"
  using raw_change [OF assms(1,4)] assms(2,3) by (simp_all add: pending_def)

lemma raw_release:
  assumes "settled s" and "currentGesture s \<in> set specialGestures"
    and "g \<notin> set specialGestures" and "g \<noteq> handData_gesture s"
  shows "timers (step (Raw g) s) =
           [(nextTimer s, 1000, Release (previousShape s) (previousColor s))]"
    and "currentGesture (step (Raw g) s) = currentGesture s"
proof -
  from assms(2,3) have "g \<noteq> currentGesture s"
    by auto
  with raw_change [OF assms(1,4)] assms(2,3)
  show "timers (step (Raw g) s) =
           [(nextTimer s, 1000, Release (previousShape s) (previousColor s))]"
    and "currentGesture (step (Raw g) s) = currentGesture s"
    by (simp_all add: pending_def)
qed

lemma raw_plain:
  assumes "settled s" and "currentGesture s \<notin> set specialGestures"
    and "g \<notin> set specialGestures"
  shows "currentGesture (step (Raw g) s) = g \<and> timers (step (Raw g) s) = []"
proof (cases "g = handData_gesture s")
  case True
  then have same: "step (Raw g) s = s"
    by (simp add: commit_same)
  from assms have "pending s = None"
    using True by (simp add: pending_def)
  with assms(1) have "handData_gesture s = currentGesture s \<and> timers s = []"
    by (simp add: settled_def)
  with True same show ?thesis
    by simp
next
  case False
  from raw_change [OF assms(1) False] assms(2,3) show ?thesis
    by (simp add: pending_def)
qed

subsection \<open>A timer fires\<close>

lemma fire_confirm:
  assumes "timers s = [(t, 1, Confirm g current shape color)]"
    and "g = handData_gesture s" and "g \<noteq> currentGesture s"
  shows "currentGesture (step Tick s) = g"
    and "timers (step Tick s) = []"
    and "previousShape (step Tick s) =
           (if current \<notin> set specialGestures then shape else previousShape s)"
    and "previousColor (step Tick s) =
           (if current \<notin> set specialGestures then color else previousColor s)"
    and "g \<in> set specialGestures \<Longrightarrow> activeShape (step Tick s) = fst (gesture_look g)"
    and "g \<in> set specialGestures \<Longrightarrow> particleColor (step Tick s) = snd (gesture_look g)"
    and "handData_gesture (step Tick s) = g"
proof -
  define new where "new = advance_timers s"
  have fire: "new = run_callback (Confirm g current shape color) (s\<lparr>timers := []\<rparr>)"
    unfolding new_def using assms(1) by (simp add: advance_fire)
  have cur: "currentGesture new = g" and raw: "handData_gesture new = g"
    and none: "timers new = []"
    unfolding fire using assms(2) by simp_all
  have changed: "deps new \<noteq> deps s"
    using cur assms(3) by (auto simp: deps_def)
  have own: "owned new"
    using none by (simp add: owned_def)
  have st: "step Tick s = commit s new"
    by (simp add: new_def)
  show "currentGesture (step Tick s) = g"
    unfolding st by (simp add: commit_current [OF changed] cur raw)
  show "timers (step Tick s) = []"
    unfolding st by (simp add: commit_timers [OF own changed] pending_def cur raw)
  show "previousShape (step Tick s) =
           (if current \<notin> set specialGestures then shape else previousShape s)"
    unfolding st by (simp add: fire)
  show "previousColor (step Tick s) =
           (if current \<notin> set specialGestures then color else previousColor s)"
    unfolding st by (simp add: fire)
  show "activeShape (step Tick s) = fst (gesture_look g)" if "g \<in> set specialGestures"
    unfolding st using that by (simp add: fire run_Confirm_look)
  show "particleColor (step Tick s) = snd (gesture_look g)" if "g \<in> set specialGestures"
    unfolding st using that by (simp add: fire run_Confirm_look)
  show "handData_gesture (step Tick s) = g"
    unfolding st by (simp add: raw)
qed

lemma fire_release:
  assumes "timers s = [(t, 1, Release shape color)]"
    and "currentGesture s \<in> set specialGestures"
    and "handData_gesture s \<notin> set specialGestures"
  shows "currentGesture (advance_timers s) = ''none''"
    and "activeShape (advance_timers s) = shape"
    and "particleColor (advance_timers s) = color"
    and "currentGesture (step Tick s) = handData_gesture s"
    and "activeShape (step Tick s) = shape"
    and "particleColor (step Tick s) = color"
    and "timers (step Tick s) = []"
    and "previousShape (step Tick s) = previousShape s"
    and "previousColor (step Tick s) = previousColor s"
    and "handData_gesture (step Tick s) = handData_gesture s"
proof -
  define new where "new = advance_timers s"
  have fire: "new = run_callback (Release shape color) (s\<lparr>timers := []\<rparr>)"
    unfolding new_def using assms(1) by (simp add: advance_fire)
  have cur: "currentGesture new = ''none''" and raw: "handData_gesture new = handData_gesture s"
    and none: "timers new = []"
    unfolding fire by simp_all
  have "currentGesture s \<noteq> ''none''"
    using assms(2) none_not_special by metis
  then have changed: "deps new \<noteq> deps s"
    using cur by (simp add: deps_def)
  have own: "owned new"
    using none by (simp add: owned_def)
  have st: "step Tick s = commit s new"
    by (simp add: new_def)
  show "currentGesture (advance_timers s) = ''none''"
    using cur by (simp add: new_def)
  show "activeShape (advance_timers s) = shape" "particleColor (advance_timers s) = color"
    unfolding new_def [symmetric] fire by simp_all
  show "currentGesture (step Tick s) = handData_gesture s"
    unfolding st using assms(3) by (simp add: commit_current [OF changed] cur raw)
  show "timers (step Tick s) = []"
    unfolding st using assms(3)
    by (simp add: commit_timers [OF own changed] pending_def cur raw)
  show "activeShape (step Tick s) = shape" "particleColor (step Tick s) = color"
    "previousShape (step Tick s) = previousShape s"
    "previousColor (step Tick s) = previousColor s"
    "handData_gesture (step Tick s) = handData_gesture s"
    unfolding st by (simp_all add: fire)
qed

lemma tick_raw:
  assumes "settled s"
  shows "handData_gesture (step Tick s) = handData_gesture s"
  using assms
proof (cases rule: settled_cases)
  case idle
  then show ?thesis by (simp add: advance_none)
next
  case (confirming t ms)
  then show ?thesis
    by (cases "1 < ms") (simp_all add: advance_wait advance_fire)
next
  case (releasing t ms)
  then show ?thesis
    by (cases "1 < ms") (simp_all add: advance_wait advance_fire)
qed

lemma tick_current:
  assumes "settled s"
  shows "currentGesture (step Tick s) = currentGesture s
         \<or> currentGesture (step Tick s) = handData_gesture s"
  using assms
proof (cases rule: settled_cases)
  case idle
  then show ?thesis by (simp add: advance_none commit_same)
next
  case (confirming t ms)
  show ?thesis
  proof (cases "1 < ms")
    case True
    with confirming(1) show ?thesis
      by (simp add: advance_wait commit_same deps_def)
  next
    case False
    with confirming have "timers s = [(t, 1, Confirm (handData_gesture s) (currentGesture s)
        (activeShape s) (particleColor s))]"
      by simp
    from fire_confirm(1) [OF this] confirming(3) show ?thesis
      by simp
  qed
next
  case (releasing t ms)
  show ?thesis
  proof (cases "1 < ms")
    case True
    with releasing(1) show ?thesis
      by (simp add: advance_wait commit_same deps_def)
  next
    case False
    with releasing have "timers s = [(t, 1, Release (previousShape s) (previousColor s))]"
      by simp
    from fire_release(4) [OF this releasing(3,2)] show ?thesis
      by simp
  qed
qed

lemma ticks_never:
  assumes "settled s" and "handData_gesture s \<noteq> g" and "currentGesture s \<noteq> g"
  shows "settled (ticks m s) \<and> handData_gesture (ticks m s) \<noteq> g
         \<and> currentGesture (ticks m s) \<noteq> g"
proof (induction m)
  case 0
  with assms show ?case by (simp add: ticks_0)
next
  case (Suc m)
  then have st: "settled (ticks m s)" and raw: "handData_gesture (ticks m s) \<noteq> g"
    and cur: "currentGesture (ticks m s) \<noteq> g"
    by simp_all
  from tick_current [OF st] raw cur have "currentGesture (step Tick (ticks m s)) \<noteq> g"
    by auto
  then show ?case
    using raw settled_step [OF st, of Tick] tick_raw [OF st]
    by (simp add: ticks_Suc del: step.simps)
qed

lemma settled_stable:
  assumes "settled s"
  shows "deps (rerun_effect s) = deps s"
proof -
  have "handData_gesture s = currentGesture s"
    if "handData_gesture s \<notin> set specialGestures" "currentGesture s \<notin> set specialGestures"
    using assms that by (simp add: settled_def pending_def split: if_splits)
  then show ?thesis
    by (auto simp: deps_def rerun_current)
qed

subsection \<open>Confirmation and release, with their delays\<close>

lemma confirm_after_300:
  assumes "settled s" and "g \<in> set specialGestures" and "g \<noteq> currentGesture s"
    and "g \<noteq> handData_gesture s"
  shows "n < 300 \<Longrightarrow> currentGesture (ticks n (step (Raw g) s)) = currentGesture s"
    and "n < 300 \<Longrightarrow> timers (ticks n (step (Raw g) s)) =
           [(nextTimer s, 300 - n, Confirm g (currentGesture s) (activeShape s) (particleColor s))]"
    and "n < 300 \<Longrightarrow> handData_gesture (ticks n (step (Raw g) s)) = g"
    and "currentGesture (ticks 300 (step (Raw g) s)) = g"
    and "previousShape (ticks 300 (step (Raw g) s)) =
           (if currentGesture s \<notin> set specialGestures then activeShape s else previousShape s)"
    and "previousColor (ticks 300 (step (Raw g) s)) =
           (if currentGesture s \<notin> set specialGestures then particleColor s else previousColor s)"
    and "activeShape (ticks 300 (step (Raw g) s)) = fst (gesture_look g)"
    and "particleColor (ticks 300 (step (Raw g) s)) = snd (gesture_look g)"
    and "handData_gesture (ticks 300 (step (Raw g) s)) = g"
    and "timers (ticks 300 (step (Raw g) s)) = []"
proof -
  define s1 where "s1 = step (Raw g) s"
  define cb where "cb = Confirm g (currentGesture s) (activeShape s) (particleColor s)"
  have t1: "timers s1 = [(nextTimer s, 300, cb)]" and c1: "currentGesture s1 = currentGesture s"
    unfolding s1_def cb_def using raw_special [OF assms] by simp_all
  have wait: "ticks n s1 = s1\<lparr>timers := [(nextTimer s, 300 - n, cb)]\<rparr>" if "n < 300" for n
    using t1 that by (rule ticks_wait)
  show "currentGesture (ticks n (step (Raw g) s)) = currentGesture s" if "n < 300"
    using wait [OF that] c1 by (simp add: s1_def)
  show "timers (ticks n (step (Raw g) s)) =
           [(nextTimer s, 300 - n, Confirm g (currentGesture s) (activeShape s) (particleColor s))]"
    if "n < 300"
    using wait [OF that] by (simp add: s1_def cb_def)
  show "handData_gesture (ticks n (step (Raw g) s)) = g" if "n < 300"
    using wait [OF that] by (simp add: s1_def [symmetric]) (simp add: s1_def)
  define s2 where "s2 = ticks 299 s1"
  have s2: "s2 = s1\<lparr>timers := [(nextTimer s, 1, cb)]\<rparr>"
    unfolding s2_def using wait [of 299] by simp
  have t2: "timers s2 = [(nextTimer s, 1, Confirm g (currentGesture s) (activeShape s)
      (particleColor s))]"
    by (simp add: s2 cb_def)
  have raw2: "g = handData_gesture s2" and cur2: "g \<noteq> currentGesture s2"
    using assms(3) c1 by (simp_all add: s2) (simp add: s1_def)
  have last: "ticks 300 (step (Raw g) s) = step Tick s2"
    using ticks_Suc [of 299 s1] by (simp add: s2_def s1_def)
  have fields: "previousShape s2 = previousShape s" "previousColor s2 = previousColor s"
    by (simp_all add: s2) (simp_all add: s1_def)
  show "currentGesture (ticks 300 (step (Raw g) s)) = g"
    unfolding last by (rule fire_confirm(1) [OF t2 raw2 cur2])
  show "timers (ticks 300 (step (Raw g) s)) = []"
    unfolding last by (rule fire_confirm(2) [OF t2 raw2 cur2])
  show "previousShape (ticks 300 (step (Raw g) s)) =
           (if currentGesture s \<notin> set specialGestures then activeShape s else previousShape s)"
    unfolding last fire_confirm(3) [OF t2 raw2 cur2] by (simp add: fields)
  show "previousColor (ticks 300 (step (Raw g) s)) =
           (if currentGesture s \<notin> set specialGestures then particleColor s else previousColor s)"
    unfolding last fire_confirm(4) [OF t2 raw2 cur2] by (simp add: fields)
  show "activeShape (ticks 300 (step (Raw g) s)) = fst (gesture_look g)"
    unfolding last by (rule fire_confirm(5) [OF t2 raw2 cur2 assms(2)])
  show "particleColor (ticks 300 (step (Raw g) s)) = snd (gesture_look g)"
    unfolding last by (rule fire_confirm(6) [OF t2 raw2 cur2 assms(2)])
  show "handData_gesture (ticks 300 (step (Raw g) s)) = g"
    unfolding last by (rule fire_confirm(7) [OF t2 raw2 cur2])
qed

lemma release_after_1000:
  assumes "settled s" and "currentGesture s \<in> set specialGestures"
    and "r \<notin> set specialGestures" and "r \<noteq> handData_gesture s"
  shows "n < 1000 \<Longrightarrow> currentGesture (ticks n (step (Raw r) s)) = currentGesture s"
    and "n < 1000 \<Longrightarrow> activeShape (ticks n (step (Raw r) s)) = activeShape s"
    and "n < 1000 \<Longrightarrow> particleColor (ticks n (step (Raw r) s)) = particleColor s"
    and "currentGesture (advance_timers (ticks 999 (step (Raw r) s))) = ''none''"
    and "activeShape (advance_timers (ticks 999 (step (Raw r) s))) = previousShape s"
    and "particleColor (advance_timers (ticks 999 (step (Raw r) s))) = previousColor s"
    and "currentGesture (ticks 1000 (step (Raw r) s)) = r"
    and "activeShape (ticks 1000 (step (Raw r) s)) = previousShape s"
    and "particleColor (ticks 1000 (step (Raw r) s)) = previousColor s"
proof -
  define s1 where "s1 = step (Raw r) s"
  define cb where "cb = Release (previousShape s) (previousColor s)"
  have t1: "timers s1 = [(nextTimer s, 1000, cb)]" and c1: "currentGesture s1 = currentGesture s"
    unfolding s1_def cb_def using raw_release [OF assms] by simp_all
  have wait: "ticks n s1 = s1\<lparr>timers := [(nextTimer s, 1000 - n, cb)]\<rparr>" if "n < 1000" for n
    using t1 that by (rule ticks_wait)
  show "currentGesture (ticks n (step (Raw r) s)) = currentGesture s" if "n < 1000"
    using wait [OF that] c1 by (simp add: s1_def)
  show "activeShape (ticks n (step (Raw r) s)) = activeShape s" if "n < 1000"
    using wait [OF that] by (simp add: s1_def [symmetric]) (simp add: s1_def)
  show "particleColor (ticks n (step (Raw r) s)) = particleColor s" if "n < 1000"
    using wait [OF that] by (simp add: s1_def [symmetric]) (simp add: s1_def)
  define s2 where "s2 = ticks 999 s1"
  have s2: "s2 = s1\<lparr>timers := [(nextTimer s, 1, cb)]\<rparr>"
    unfolding s2_def using wait [of 999] by simp
  have t2: "timers s2 = [(nextTimer s, 1, Release (previousShape s) (previousColor s))]"
    by (simp add: s2 cb_def)
  have cur2: "currentGesture s2 \<in> set specialGestures"
    using assms(2) c1 by (simp add: s2)
  have raw2: "handData_gesture s2 \<notin> set specialGestures" and raw2': "handData_gesture s2 = r"
    using assms(3) by (simp_all add: s2) (simp_all add: s1_def)
  have last: "ticks 1000 (step (Raw r) s) = step Tick s2"
    using ticks_Suc [of 999 s1] by (simp add: s2_def s1_def)
  have s2': "ticks 999 (step (Raw r) s) = s2"
    by (simp add: s2_def s1_def)
  show "currentGesture (advance_timers (ticks 999 (step (Raw r) s))) = ''none''"
    unfolding s2' by (rule fire_release(1) [OF t2 cur2 raw2])
  show "activeShape (advance_timers (ticks 999 (step (Raw r) s))) = previousShape s"
    unfolding s2' by (rule fire_release(2) [OF t2 cur2 raw2])
  show "particleColor (advance_timers (ticks 999 (step (Raw r) s))) = previousColor s"
    unfolding s2' by (rule fire_release(3) [OF t2 cur2 raw2])
  show "currentGesture (ticks 1000 (step (Raw r) s)) = r"
    unfolding last fire_release(4) [OF t2 cur2 raw2] by (rule raw2')
  show "activeShape (ticks 1000 (step (Raw r) s)) = previousShape s"
    unfolding last by (rule fire_release(5) [OF t2 cur2 raw2])
  show "particleColor (ticks 1000 (step (Raw r) s)) = previousColor s"
    unfolding last by (rule fire_release(6) [OF t2 cur2 raw2])
qed

lemma raw_cancels:
  assumes "settled s" and "h \<noteq> handData_gesture s"
  shows "fst ` set (timers (step (Raw h) s)) \<inter> fst ` set (timers s) = {}"
proof -
  have new: "t = nextTimer s" if "t \<in> fst ` set (timers (step (Raw h) s))" for t
    using that raw_change(2) [OF assms] by (auto split: option.splits)
  have old: "t < nextTimer s" if "t \<in> fst ` set (timers s)" for t
    using assms(1) that by (cases rule: settled_cases) auto
  show ?thesis
    using new old by fastforce
qed

lemma settled_one_timer:
  assumes "settled s"
  shows "length (timers s) \<le> 1"
  using assms by (cases rule: settled_cases) simp_all

lemma revert_never:
  assumes "settled s" and "g \<in> set specialGestures" and "g \<noteq> currentGesture s"
    and "g \<noteq> handData_gesture s" and "n < 300" and "h \<noteq> g"
  shows "currentGesture (ticks m (step (Raw h) (ticks n (step (Raw g) s)))) \<noteq> g"
proof -
  define s1 where "s1 = ticks n (step (Raw g) s)"
  have st1: "settled s1"
    unfolding s1_def by (intro settled_ticks settled_step assms(1))
  have c1: "currentGesture s1 = currentGesture s" and r1: "handData_gesture s1 = g"
    unfolding s1_def using confirm_after_300(1,3) [OF assms(1-4) assms(5)] by simp_all
  have changed: "h \<noteq> handData_gesture s1"
    using assms(6) r1 by simp
  have "currentGesture (step (Raw h) s1) = h \<or> currentGesture (step (Raw h) s1) = currentGesture s1"
    using raw_change(1) [OF st1 changed] by (simp split: if_splits)
  then have c2: "currentGesture (step (Raw h) s1) \<noteq> g"
    using assms(3,6) c1 by auto
  have "handData_gesture (step (Raw h) s1) \<noteq> g"
    using assms(6) by simp
  from ticks_never [OF settled_step [OF st1] this c2] show ?thesis
    by (simp add: s1_def)
qed

subsection \<open>Excursions\<close>

lemma commit_current_cases:
  "currentGesture (commit old new) = currentGesture new
   \<or> (currentGesture (commit old new) = handData_gesture new
       \<and> handData_gesture new \<notin> set specialGestures)"
  by (cases "deps new = deps old") (simp_all add: commit_same commit_current)

lemma step_enter:
  assumes "settled s" and "currentGesture s \<notin> set specialGestures"
    and "currentGesture (step e s) \<in> set specialGestures"
  shows "e = Tick \<and> handData_gesture s \<in> set specialGestures
         \<and> handData_gesture s \<noteq> currentGesture s
         \<and> (\<exists>t. timers s = [(t, 1, Confirm (handData_gesture s) (currentGesture s)
                                      (activeShape s) (particleColor s))])"
proof (cases e)
  case (Raw g)
  with commit_current_cases [of s "s\<lparr>handData_gesture := g\<rparr>"] assms(2,3) show ?thesis
    by auto
next
  case (PickShape shape)
  with commit_current_cases [of s "s\<lparr>activeShape := shape\<rparr>"] assms(2,3) show ?thesis
    by auto
next
  case (PickColor color)
  with commit_current_cases [of s "s\<lparr>particleColor := color\<rparr>"] assms(2,3) show ?thesis
    by auto
next
  case StopTracking
  with commit_current_cases
    [of s "s\<lparr>handData_gesture := ''none'', currentGesture := ''none''\<rparr>"] assms(3)
  show ?thesis
    by auto
next
  case Tick
  from assms(1) show ?thesis
  proof (cases rule: settled_cases)
    case idle
    with assms(2,3) Tick show ?thesis
      by (simp add: advance_none commit_same)
  next
    case (confirming t ms)
    show ?thesis
    proof (cases "1 < ms")
      case True
      with confirming(1) assms(2,3) Tick show ?thesis
        by (simp add: advance_wait commit_same deps_def)
    next
      case False
      with confirming(6) have "ms = 1" by simp
      with confirming Tick show ?thesis by simp
    qed
  next
    case (releasing t ms)
    with assms(2) show ?thesis by simp
  qed
qed

lemma step_previous:
  assumes "settled s" and "currentGesture s \<in> set specialGestures"
  shows "previousShape (step e s) = previousShape s \<and> previousColor (step e s) = previousColor s"
proof (cases e)
  case Tick
  from assms(1) show ?thesis
  proof (cases rule: settled_cases)
    case idle
    with Tick show ?thesis
      by (simp add: advance_none)
  next
    case (confirming t ms)
    show ?thesis
    proof (cases "1 < ms")
      case True
      with confirming(1) Tick show ?thesis
        by (simp add: advance_wait)
    next
      case False
      with confirming have t: "timers s = [(t, 1, Confirm (handData_gesture s) (currentGesture s)
          (activeShape s) (particleColor s))]"
        by simp
      from fire_confirm(3,4) [OF t refl confirming(3)] assms(2) Tick show ?thesis
        by simp
    qed
  next
    case (releasing t ms)
    show ?thesis
    proof (cases "1 < ms")
      case True
      with releasing(1) Tick show ?thesis
        by (simp add: advance_wait)
    next
      case False
      with releasing have t: "timers s = [(t, 1, Release (previousShape s) (previousColor s))]"
        by simp
      from fire_release(8,9) [OF t releasing(3,2)] Tick show ?thesis
        by simp
    qed
  qed
qed simp_all

lemma excursion_previous:
  assumes "settled s" and "excursion during s"
  shows "settled (run during s) \<and> currentGesture (run during s) \<in> set specialGestures
         \<and> previousShape (run during s) = previousShape s
         \<and> previousColor (run during s) = previousColor s"
  using assms
proof (induction during arbitrary: s)
  case Nil
  then show ?case by (simp add: run_Nil)
next
  case (Cons e during)
  then have cur: "currentGesture s \<in> set specialGestures" and rest: "excursion during (step e s)"
    by simp_all
  from Cons.IH [OF settled_step [OF Cons.prems(1)] rest] step_previous [OF Cons.prems(1) cur, of e]
  show ?case
    by (simp add: run_Cons del: step.simps)
qed

subsection \<open>The claims about the debouncer\<close>

lemma settled_reached: "settled (run events app_init)"
  by (rule settled_run [OF settled_init])

lemma victory_from_init:
  "''victory'' \<in> set specialGestures" "''victory'' \<noteq> currentGesture app_init"
  "''victory'' \<noteq> handData_gesture app_init" "currentGesture app_init \<notin> set specialGestures"
  "activeShape app_init = SPHERE" "particleColor app_init = ''#4ade80''"
  by (simp_all add: specialGestures_def app_init_def)

text \<open>
  C3. In every state \<open>s\<close> the application reaches: at most one timer is live, and a change of
  the raw gesture leaves none of the timers that were live. A raw special gesture \<open>g\<close> that
  differs from the committed one leaves it unchanged for less than 300 ms and is committed at
  300 ms; when the raw gesture changes to another one before 300 ms, the confirmation timer
  is no longer live and \<open>g\<close> is not committed however long one waits. When a special gesture
  is committed, a raw gesture \<open>r\<close> that is not special leaves it committed for less than
  1000 ms; at 1000 ms the release callback sets the committed gesture to \<open>none\<close>, and the
  render that follows sets it to \<open>r\<close>. When no special gesture is committed, a raw gesture
  that is not special is committed at once, with no timer.
\<close>

theorem gesture_debounce_timing:
  assumes "s = run events app_init"
  shows "length (timers s) \<le> 1
    \<and> (h \<noteq> handData_gesture s \<longrightarrow>
          fst ` set (timers (step (Raw h) s)) \<inter> fst ` set (timers s) = {})
    \<and> (g \<in> set specialGestures \<and> g \<noteq> currentGesture s \<and> g \<noteq> handData_gesture s \<longrightarrow>
          (\<forall>n<300. currentGesture (ticks n (step (Raw g) s)) = currentGesture s)
          \<and> currentGesture (ticks 300 (step (Raw g) s)) = g
          \<and> (\<forall>n<300. h \<noteq> g \<longrightarrow>
                fst ` set (timers (ticks n (step (Raw g) s))) = {nextTimer s}
                \<and> nextTimer s \<notin> fst ` set (timers (step (Raw h) (ticks n (step (Raw g) s))))
                \<and> (\<forall>m. currentGesture (ticks m (step (Raw h) (ticks n (step (Raw g) s))))
                        \<noteq> g)))
    \<and> (currentGesture s \<in> set specialGestures \<and> r \<notin> set specialGestures
          \<and> r \<noteq> handData_gesture s \<longrightarrow>
          (\<forall>n<1000. currentGesture (ticks n (step (Raw r) s)) = currentGesture s)
          \<and> currentGesture (advance_timers (ticks 999 (step (Raw r) s))) = ''none''
          \<and> currentGesture (ticks 1000 (step (Raw r) s)) = r)
    \<and> (currentGesture s \<notin> set specialGestures \<and> r \<notin> set specialGestures \<longrightarrow>
          currentGesture (step (Raw r) s) = r \<and> timers (step (Raw r) s) = [])"
proof -
  have st: "settled s"
    unfolding assms by (rule settled_reached)
  have one: "length (timers s) \<le> 1"
    using st by (rule settled_one_timer)
  have cancel: "fst ` set (timers (step (Raw h) s)) \<inter> fst ` set (timers s) = {}"
    if "h \<noteq> handData_gesture s"
    using st that by (rule raw_cancels)
  have confirm: "(\<forall>n<300. currentGesture (ticks n (step (Raw g) s)) = currentGesture s)
      \<and> currentGesture (ticks 300 (step (Raw g) s)) = g
      \<and> (\<forall>n<300. h \<noteq> g \<longrightarrow>
            fst ` set (timers (ticks n (step (Raw g) s))) = {nextTimer s}
            \<and> nextTimer s \<notin> fst ` set (timers (step (Raw h) (ticks n (step (Raw g) s))))
            \<and> (\<forall>m. currentGesture (ticks m (step (Raw h) (ticks n (step (Raw g) s)))) \<noteq> g))"
    if g: "g \<in> set specialGestures" "g \<noteq> currentGesture s" "g \<noteq> handData_gesture s"
  proof (intro conjI allI impI)
    fix n :: nat
    assume n: "n < 300"
    show "currentGesture (ticks n (step (Raw g) s)) = currentGesture s"
      using st g n by (rule confirm_after_300(1))
    define s1 where "s1 = ticks n (step (Raw g) s)"
    have t1: "timers s1 = [(nextTimer s, 300 - n,
        Confirm g (currentGesture s) (activeShape s) (particleColor s))]"
      unfolding s1_def using st g n by (rule confirm_after_300(2))
    then show "fst ` set (timers (ticks n (step (Raw g) s))) = {nextTimer s}"
      by (simp add: s1_def)
    assume h: "h \<noteq> g"
    have st1: "settled s1"
      unfolding s1_def by (intro settled_ticks settled_step st)
    have "handData_gesture s1 = g"
      unfolding s1_def using st g n by (rule confirm_after_300(3))
    with h have "h \<noteq> handData_gesture s1"
      by simp
    from raw_cancels [OF st1 this] t1
    show "nextTimer s \<notin> fst ` set (timers (step (Raw h) (ticks n (step (Raw g) s))))"
      by (simp add: s1_def [symmetric] del: step.simps)
    show "currentGesture (ticks m (step (Raw h) (ticks n (step (Raw g) s)))) \<noteq> g" for m
      using st g n h by (rule revert_never)
  next
    show "currentGesture (ticks 300 (step (Raw g) s)) = g"
      using st g by (rule confirm_after_300(4))
  qed
  have release: "(\<forall>n<1000. currentGesture (ticks n (step (Raw r) s)) = currentGesture s)
      \<and> currentGesture (advance_timers (ticks 999 (step (Raw r) s))) = ''none''
      \<and> currentGesture (ticks 1000 (step (Raw r) s)) = r"
    if r: "currentGesture s \<in> set specialGestures" "r \<notin> set specialGestures"
      "r \<noteq> handData_gesture s"
    using release_after_1000(1,4,7) [OF st r] by blast
  have plain: "currentGesture (step (Raw r) s) = r \<and> timers (step (Raw r) s) = []"
    if "currentGesture s \<notin> set specialGestures" "r \<notin> set specialGestures"
    using st that by (rule raw_plain)
  show ?thesis
    using one cancel confirm release plain by blast
qed

theorem gesture_debounce_timing_witness:
  "''victory'' \<in> set specialGestures \<and> ''victory'' \<noteq> currentGesture app_init
   \<and> ''victory'' \<noteq> handData_gesture app_init \<and> ''none'' \<noteq> ''victory''
   \<and> ''fist'' \<notin> set specialGestures \<and> currentGesture app_init \<notin> set specialGestures
   \<and> length (timers app_init) \<le> 1
   \<and> currentGesture (ticks 299 (step (Raw ''victory'') app_init)) = ''none''
   \<and> currentGesture (ticks 300 (step (Raw ''victory'') app_init)) = ''victory''
   \<and> currentGesture
        (ticks 5000 (step (Raw ''none'') (ticks 299 (step (Raw ''victory'') app_init))))
        \<noteq> ''victory''
   \<and> currentGesture (step (Raw ''fist'') app_init) = ''fist''
   \<and> currentGesture (ticks 300 (step (Raw ''victory'') app_init)) \<in> set specialGestures
   \<and> ''none'' \<notin> set specialGestures
   \<and> ''none'' \<noteq> handData_gesture (ticks 300 (step (Raw ''victory'') app_init))
   \<and> currentGesture
        (ticks 999 (step (Raw ''none'') (ticks 300 (step (Raw ''victory'') app_init))))
        = ''victory''
   \<and> currentGesture
        (ticks 1000 (step (Raw ''none'') (ticks 300 (step (Raw ''victory'') app_init))))
        = ''none''"
proof -
  have init: "app_init = run [] app_init"
    by (simp add: run_Nil)
  have cur0: "currentGesture app_init = ''none''"
    by (simp add: app_init_def)
  have fist: "''fist'' \<notin> set specialGestures"
    by (simp add: specialGestures_def)
  note first = gesture_debounce_timing [OF init, of "''none''" "''victory''" "''fist''"]
  define s1 where "s1 = ticks 300 (step (Raw ''victory'') app_init)"
  have reach: "s1 = run (Raw ''victory'' # replicate 300 Tick) app_init"
    by (simp add: s1_def ticks_def run_Cons del: step.simps)
  have cur1: "currentGesture s1 = ''victory''" and raw1: "handData_gesture s1 = ''victory''"
    unfolding s1_def
    using confirm_after_300(4,9) [OF settled_init victory_from_init(1,2,3)] by simp_all
  note second = gesture_debounce_timing [OF reach, of "''none''" "''victory''" "''none''"]
  have a: "currentGesture (ticks 299 (step (Raw ''victory'') app_init)) = ''none''"
    "currentGesture (ticks 300 (step (Raw ''victory'') app_init)) = ''victory''"
    "currentGesture
        (ticks 5000 (step (Raw ''none'') (ticks 299 (step (Raw ''victory'') app_init))))
        \<noteq> ''victory''"
    "currentGesture (step (Raw ''fist'') app_init) = ''fist''"
    "length (timers app_init) \<le> 1"
    using first victory_from_init fist cur0 by (simp_all del: step.simps)
  have b: "currentGesture (ticks 999 (step (Raw ''none'') s1)) = ''victory''"
    "currentGesture (ticks 1000 (step (Raw ''none'') s1)) = ''none''"
    using second cur1 raw1 victory_from_init(1) by (simp_all del: step.simps)
  show ?thesis
    using a b victory_from_init fist cur1 raw1
    by (simp add: s1_def [symmetric] del: step.simps)
qed

text \<open>
  C6. Take a state \<open>s\<close> the application reaches in which no special gesture is committed,
  an event \<open>e\<close> after which one is, and any events \<open>during\<close> which a special gesture stays
  committed. Then \<open>e\<close> is the expiry of the confirmation timer: it commits the raw gesture,
  saves the active shape and colour of \<open>s\<close> as the previous ones and applies the shape and
  colour of the gesture (victory: text and #ffd700, love: heart and #ec4899, thumbs_up:
  fireworks and #ef4444, point: saturn and #06b6d4). The saved values stay through the
  excursion. When the raw gesture then changes to one that is not special, a special gesture
  stays committed for less than 1000 ms, and at 1000 ms the release callback sets the
  committed gesture to \<open>none\<close> and the shape and colour to those of \<open>s\<close>.
\<close>

theorem special_gesture_round_trip:
  assumes "s = run events app_init" and "currentGesture s \<notin> set specialGestures"
    and "excursion during (step e s)"
  shows "e = Tick \<and> handData_gesture s \<in> set specialGestures
    \<and> currentGesture (step e s) = handData_gesture s
    \<and> previousShape (step e s) = activeShape s \<and> previousColor (step e s) = particleColor s
    \<and> (activeShape (step e s), particleColor (step e s)) = gesture_look (handData_gesture s)
    \<and> gesture_look ''victory'' = (TEXT, ''#ffd700'')
    \<and> gesture_look ''love'' = (HEART, ''#ec4899'')
    \<and> gesture_look ''thumbs_up'' = (FIREWORKS, ''#ef4444'')
    \<and> gesture_look ''point'' = (SATURN, ''#06b6d4'')
    \<and> previousShape (run during (step e s)) = activeShape s
    \<and> previousColor (run during (step e s)) = particleColor s
    \<and> (r \<notin> set specialGestures \<and> r \<noteq> handData_gesture (run during (step e s)) \<longrightarrow>
          (\<forall>n<1000. currentGesture (ticks n (step (Raw r) (run during (step e s))))
                       \<in> set specialGestures)
          \<and> currentGesture (advance_timers (ticks 999 (step (Raw r) (run during (step e s)))))
              = ''none''
          \<and> activeShape (advance_timers (ticks 999 (step (Raw r) (run during (step e s)))))
              = activeShape s
          \<and> particleColor (advance_timers (ticks 999 (step (Raw r) (run during (step e s)))))
              = particleColor s
          \<and> activeShape (ticks 1000 (step (Raw r) (run during (step e s)))) = activeShape s
          \<and> particleColor (ticks 1000 (step (Raw r) (run during (step e s))))
              = particleColor s)"
proof -
  have st: "settled s"
    unfolding assms(1) by (rule settled_reached)
  have entered: "currentGesture (step e s) \<in> set specialGestures"
    using assms(3) by (cases during) simp_all
  from step_enter [OF st assms(2) entered] obtain t where
    e: "e = Tick" and raw: "handData_gesture s \<in> set specialGestures"
    and differ: "handData_gesture s \<noteq> currentGesture s"
    and t: "timers s = [(t, 1, Confirm (handData_gesture s) (currentGesture s) (activeShape s)
        (particleColor s))]"
    by blast
  note fired = fire_confirm [OF t refl differ]
  have confirmed: "currentGesture (step e s) = handData_gesture s"
    "previousShape (step e s) = activeShape s" "previousColor (step e s) = particleColor s"
    "(activeShape (step e s), particleColor (step e s)) = gesture_look (handData_gesture s)"
    unfolding e using fired(1,3,4) fired(5,6) [OF raw] assms(2) by (simp_all add: prod_eq_iff)
  define s2 where "s2 = run during (step e s)"
  have st2: "settled s2" and cur2: "currentGesture s2 \<in> set specialGestures"
    and saved: "previousShape s2 = activeShape s" "previousColor s2 = particleColor s"
    unfolding s2_def
    using excursion_previous [OF settled_step [OF st] assms(3)] confirmed(2,3) by simp_all
  have released: "(\<forall>n<1000. currentGesture (ticks n (step (Raw r) s2)) \<in> set specialGestures)
      \<and> currentGesture (advance_timers (ticks 999 (step (Raw r) s2))) = ''none''
      \<and> activeShape (advance_timers (ticks 999 (step (Raw r) s2))) = activeShape s
      \<and> particleColor (advance_timers (ticks 999 (step (Raw r) s2))) = particleColor s
      \<and> activeShape (ticks 1000 (step (Raw r) s2)) = activeShape s
      \<and> particleColor (ticks 1000 (step (Raw r) s2)) = particleColor s"
    if r: "r \<notin> set specialGestures" "r \<noteq> handData_gesture s2"
    using release_after_1000(1,4,5,6,8,9) [OF st2 cur2 r] cur2 saved by simp
  have looks: "gesture_look ''victory'' = (TEXT, ''#ffd700'')"
    "gesture_look ''love'' = (HEART, ''#ec4899'')"
    "gesture_look ''thumbs_up'' = (FIREWORKS, ''#ef4444'')"
    "gesture_look ''point'' = (SATURN, ''#06b6d4'')"
    by (simp_all add: gesture_look_def)
  show ?thesis
    using e raw confirmed saved released looks unfolding s2_def by blast
qed

theorem special_gesture_round_trip_witness:
  "currentGesture (ticks 299 (step (Raw ''victory'') app_init)) \<notin> set specialGestures
   \<and> excursion [PickShape GALAXY] (step Tick (ticks 299 (step (Raw ''victory'') app_init)))
   \<and> ''none'' \<notin> set specialGestures
   \<and> ''none'' \<noteq> handData_gesture
        (run [PickShape GALAXY] (step Tick (ticks 299 (step (Raw ''victory'') app_init))))
   \<and> activeShape (step Tick (ticks 299 (step (Raw ''victory'') app_init))) = TEXT
   \<and> particleColor (step Tick (ticks 299 (step (Raw ''victory'') app_init))) = ''#ffd700''
   \<and> activeShape (run [PickShape GALAXY]
        (step Tick (ticks 299 (step (Raw ''victory'') app_init)))) = GALAXY
   \<and> activeShape (ticks 1000 (step (Raw ''none'') (run [PickShape GALAXY]
        (step Tick (ticks 299 (step (Raw ''victory'') app_init)))))) = SPHERE
   \<and> particleColor (ticks 1000 (step (Raw ''none'') (run [PickShape GALAXY]
        (step Tick (ticks 299 (step (Raw ''victory'') app_init)))))) = ''#4ade80''"
proof -
  define s where "s = ticks 299 (step (Raw ''victory'') app_init)"
  have reach: "s = run (Raw ''victory'' # replicate 299 Tick) app_init"
    by (simp add: s_def ticks_def run_Cons del: step.simps)
  have cur: "currentGesture s = ''none''" and raw: "handData_gesture s = ''victory''"
    and shape: "activeShape s = SPHERE" and color: "particleColor s = ''#4ade80''"
    unfolding s_def
    using confirm_after_300(1,3) [OF settled_init victory_from_init(1,2,3), of 299]
      ticks_wait [OF raw_special(1) [OF settled_init victory_from_init(1,2,3)], of 299]
    by (simp_all add: app_init_def)
  have base: "currentGesture s \<notin> set specialGestures"
    by (simp add: cur)
  have next_state: "step Tick s = ticks 300 (step (Raw ''victory'') app_init)"
    by (simp add: s_def ticks_Suc [symmetric] del: step.simps)
  have cur1: "currentGesture (step Tick s) = ''victory''"
    and raw1: "handData_gesture (step Tick s) = ''victory''"
    unfolding next_state
    using confirm_after_300(4,9) [OF settled_init victory_from_init(1,2,3)] by simp_all
  have st1: "settled (step Tick s)"
    unfolding reach by (intro settled_step settled_reached)
  have picked: "step (PickShape GALAXY) (step Tick s)
      = commit (step Tick s) ((step Tick s)\<lparr>activeShape := GALAXY\<rparr>)"
    by simp
  have cur2: "currentGesture (step (PickShape GALAXY) (step Tick s)) = ''victory''"
    using commit_current_cases [of "step Tick s" "(step Tick s)\<lparr>activeShape := GALAXY\<rparr>"]
    unfolding picked by (auto simp add: cur1 raw1 simp del: step.simps)
  have raw2: "handData_gesture (step (PickShape GALAXY) (step Tick s)) = ''victory''"
    unfolding picked by (simp add: raw1 del: step.simps)
  have shape2: "activeShape (step (PickShape GALAXY) (step Tick s)) = GALAXY"
    unfolding picked by (simp del: step.simps)
  have exc: "excursion [PickShape GALAXY] (step Tick s)"
    using cur1 cur2 by (simp add: specialGestures_def del: step.simps)
  note inst = special_gesture_round_trip [OF reach base exc, of "''none''"]
  have look: "activeShape (step Tick s) = TEXT" "particleColor (step Tick s) = ''#ffd700''"
    using inst raw by (simp_all add: prod_eq_iff del: step.simps)
  have restored: "activeShape (ticks 1000 (step (Raw ''none'') (run [PickShape GALAXY] (step Tick s))))
      = SPHERE"
    "particleColor (ticks 1000 (step (Raw ''none'') (run [PickShape GALAXY] (step Tick s))))
      = ''#4ade80''"
    using inst raw2 shape color by (simp_all add: run_Cons run_Nil del: step.simps)
  show ?thesis
    using base exc look restored raw2 shape2
    by (simp add: s_def [symmetric] run_Cons run_Nil del: step.simps)
qed

end
